theory Spec2Isabelle
  imports Complex_Main "HOL-Library.AList" "HOL-Library.List_Lexorder" "HOL-Library.Char_ord"
begin

section \<open>Decoded values\<close>

text \<open>
  The model follows \<^verbatim>\<open>scripts/parse_fit.py\<close>. Python floats are read as real numbers:
  finite and exact, so there is no NaN, no infinity and no signed zero, and no rounding
  error but in the one place where it decides whether the program raises: the argument
  of the square roots of \<^verbatim>\<open>haversine_km\<close>, whose rounding error is a parameter of the
  model. Every statement below is a statement about the program under that reading.

  A decoded datetime is kept as its wall-clock reading in microseconds since
  1970-01-01T00:00:00 together with its UTC offset (\<open>None\<close> for a naive datetime).
\<close>

record datetime =
  wall_us :: int
  utcoffset_us :: "int option"

text \<open>
  A field value as the decoder hands it over. Python's \<^verbatim>\<open>None\<close> is not a constructor:
  a field whose value is \<^verbatim>\<open>None\<close> and a field that is missing are both \<open>None\<close> of the
  field map, because the program reads fields only through \<^verbatim>\<open>.get\<close> and through an
  index guarded by \<^verbatim>\<open>.get(...) is not None\<close>.
  A string carries the outcome of the builtin \<^verbatim>\<open>float()\<close> on it (\<open>None\<close> when the
  builtin raises ValueError), since the literal grammar of the builtin is not part of the
  program. \<open>VOther\<close> stands for any other object (a tuple, say), on which \<^verbatim>\<open>float()\<close>
  raises TypeError; it carries the truth value of the object.
\<close>

datatype pyval =
    VInt int
  | VFloat real
  | VBool bool
  | VStr string "real option"
  | VDatetime datetime
  | VOther bool

type_synonym fields = "string \<rightharpoonup> pyval"

text \<open>\<^verbatim>\<open>float(value)\<close> inside \<^verbatim>\<open>try ... except (TypeError, ValueError)\<close>: \<open>None\<close> is the
  except branch.\<close>

fun py_float :: "pyval \<Rightarrow> real option" where
  "py_float (VInt i) = Some (of_int i)"
| "py_float (VFloat r) = Some r"
| "py_float (VBool b) = Some (if b then 1 else 0)"
| "py_float (VStr s r) = r"
| "py_float (VDatetime d) = None"
| "py_float (VOther t) = None"

text \<open>The exceptions that nothing in the program catches: AttributeError from reading
  \<^verbatim>\<open>.tzinfo\<close> of a value that is not a datetime, ValueError from \<^verbatim>\<open>math.sqrt\<close> of a
  negative number.\<close>

datatype error = AttributeError | ValueError

section \<open>Coordinate normalization\<close>

definition semicircles_to_deg :: "real \<Rightarrow> real" where
  "semicircles_to_deg v = v * 180 / 2 ^ 31"

definition normalize_lat_lon :: "pyval option \<Rightarrow> real option" where
  "normalize_lat_lon v =
     (case v of
        None \<Rightarrow> None
      | Some x \<Rightarrow>
          (case py_float x of
             None \<Rightarrow> None
           | Some v \<Rightarrow> if \<bar>v\<bar> > 180 then Some (semicircles_to_deg v) else Some v))"

section \<open>Geocoder\<close>

text \<open>A city record of the reference list. The three labels may be missing or null in the
  JSON; the coordinates are numbers.\<close>

record city_rec =
  c_city :: "string option"
  c_country :: "string option"
  c_admin1 :: "string option"
  c_lat :: real
  c_lon :: real

definition radians :: "real \<Rightarrow> real" where
  "radians x = x * pi / 180"

text \<open>\<^verbatim>\<open>math.atan2(y, x)\<close> on finite arguments.\<close>

definition atan2 :: "real \<Rightarrow> real \<Rightarrow> real" where
  "atan2 y x =
     (if 0 < x then arctan (y / x)
      else if x < 0 then (if 0 \<le> y then arctan (y / x) + pi else arctan (y / x) - pi)
      else if 0 < y then pi / 2
      else if y < 0 then - (pi / 2)
      else 0)"

definition haversine_a :: "real \<Rightarrow> real \<Rightarrow> real \<Rightarrow> real \<Rightarrow> real" where
  "haversine_a lat1 lon1 lat2 lon2 =
     (let phi1 = radians lat1;
          phi2 = radians lat2;
          d_phi = radians (lat2 - lat1);
          d_lambda = radians (lon2 - lon1)
      in (sin (d_phi / 2))\<^sup>2 + cos phi1 * cos phi2 * (sin (d_lambda / 2))\<^sup>2)"

text \<open>
  Line 64 is evaluated in floating point, and what it computes differs from the exact
  value \<open>haversine_a\<close> by a rounding error. The model takes that error as a parameter, a
  function of the four coordinates; \<open>exact_arith\<close> is the arithmetic without error. The
  error decides whether line 65 raises: \<^verbatim>\<open>math.sqrt\<close> raises ValueError on a negative
  argument, the exact value lies between 0 and 1 (\<open>haversine_a_bounds\<close> below), and the
  computed value can lie above 1 when the two points are opposite on the globe.
\<close>

type_synonym rounding = "real \<Rightarrow> real \<Rightarrow> real \<Rightarrow> real \<Rightarrow> real"

definition exact_arith :: rounding where
  "exact_arith lat1 lon1 lat2 lon2 = 0"

definition haversine_km :: "rounding \<Rightarrow> real \<Rightarrow> real \<Rightarrow> real \<Rightarrow> real \<Rightarrow> error + real" where
  "haversine_km err lat1 lon1 lat2 lon2 =
     (let r = 6371;
          a = haversine_a lat1 lon1 lat2 lon2 + err lat1 lon1 lat2 lon2
      in if a < 0 \<or> 1 - a < 0 then Inl ValueError
         else (let c = 2 * atan2 (sqrt a) (sqrt (1 - a)) in Inr (r * c)))"

text \<open>The distance from the query point to a city, as the loop computes it.\<close>

definition city_km :: "rounding \<Rightarrow> real \<Rightarrow> real \<Rightarrow> city_rec \<Rightarrow> error + real" where
  "city_km err lat lon city = haversine_km err lat lon (c_lat city) (c_lon city)"

type_synonym lookup_result = "city_rec option \<times> real option"

text \<open>The \<^verbatim>\<open>for city in cities\<close> loop of \<^verbatim>\<open>find_nearest_city\<close>, on the pair
  \<^verbatim>\<open>(best, best_km)\<close>.\<close>

fun nearest_scan ::
  "rounding \<Rightarrow> real \<Rightarrow> real \<Rightarrow> city_rec list \<Rightarrow> lookup_result \<Rightarrow> error + lookup_result" where
  "nearest_scan err lat lon [] acc = Inr acc"
| "nearest_scan err lat lon (city # cities) (best, best_km) =
     (case haversine_km err lat lon (c_lat city) (c_lon city) of
        Inl e \<Rightarrow> Inl e
      | Inr d_km \<Rightarrow>
          if (case best_km of None \<Rightarrow> True | Some b \<Rightarrow> d_km < b)
          then nearest_scan err lat lon cities (Some city, Some d_km)
          else nearest_scan err lat lon cities (best, best_km))"

definition find_nearest_city ::
  "rounding \<Rightarrow> real \<Rightarrow> real \<Rightarrow> city_rec list \<Rightarrow> real option \<Rightarrow> error + lookup_result" where
  "find_nearest_city err lat lon cities max_km =
     (case nearest_scan err lat lon cities (None, None) of
        Inl e \<Rightarrow> Inl e
      | Inr (best, best_km) \<Rightarrow>
          if best = None then Inr (None, None)
          else if (case (max_km, best_km) of (Some m, Some b) \<Rightarrow> b > m | _ \<Rightarrow> False)
          then Inr (None, best_km)
          else Inr (best, best_km))"

text \<open>\<^verbatim>\<open>round(x, 3)\<close>: the nearest multiple of one thousandth, a tie going to the even
  one.\<close>

definition round3 :: "real \<Rightarrow> real" where
  "round3 x =
     (let y = x * 1000;
          f = \<lfloor>y\<rfloor>;
          n = (if y - of_int f < 1 / 2 then f
               else if 1 / 2 < y - of_int f then f + 1
               else if even f then f else f + 1)
      in of_int n / 1000)"

type_synonym cache = "(real \<times> real) \<rightharpoonup> lookup_result"

text \<open>\<^verbatim>\<open>city_lookup\<close> returns its result and the cache as it leaves it, or the
  exception of the search, which is raised before the cache is written.\<close>

definition city_lookup ::
  "rounding \<Rightarrow> real option \<Rightarrow> real option \<Rightarrow> city_rec list \<Rightarrow> cache \<Rightarrow> real option
     \<Rightarrow> error + lookup_result \<times> cache" where
  "city_lookup err lat lon cities cache max_km =
     (case (lat, lon) of
        (Some la, Some lo) \<Rightarrow>
          (let key = (round3 la, round3 lo)
           in case cache key of
                Some hit \<Rightarrow> Inr (hit, cache)
              | None \<Rightarrow>
                  (case find_nearest_city err la lo cities max_km of
                     Inl e \<Rightarrow> Inl e
                   | Inr result \<Rightarrow> Inr (result, cache(key \<mapsto> result))))
      | _ \<Rightarrow> Inr ((None, None), cache))"

text \<open>Successive calls of \<^verbatim>\<open>city_lookup\<close> on one cache, as the calls of
  \<^verbatim>\<open>parse_fit_file\<close> in the loop of \<^verbatim>\<open>main\<close> make them; each query is the latitude,
  the longitude, the city list and the radius of a call. An exception ends the run.\<close>

fun run_lookups ::
  "rounding \<Rightarrow> (real option \<times> real option \<times> city_rec list \<times> real option) list \<Rightarrow> cache
     \<Rightarrow> error + cache" where
  "run_lookups err [] cache = Inr cache"
| "run_lookups err ((lat, lon, cities, max_km) # queries) cache =
     (case city_lookup err lat lon cities cache max_km of
        Inl e \<Rightarrow> Inl e
      | Inr (result, cache') \<Rightarrow> run_lookups err queries cache')"

section \<open>Activity extraction\<close>

text \<open>The truth value of an object, as \<^verbatim>\<open>or\<close> and \<^verbatim>\<open>if\<close> test it.\<close>

fun py_truthy :: "pyval \<Rightarrow> bool" where
  "py_truthy (VInt i) = (i \<noteq> 0)"
| "py_truthy (VFloat r) = (r \<noteq> 0)"
| "py_truthy (VBool b) = b"
| "py_truthy (VStr s r) = (s \<noteq> [])"
| "py_truthy (VDatetime d) = True"
| "py_truthy (VOther t) = t"

text \<open>\<^verbatim>\<open>a or b\<close> on field values, on floats and on strings.\<close>

definition val_or :: "pyval option \<Rightarrow> pyval option \<Rightarrow> pyval option" where
  "val_or a b = (case a of None \<Rightarrow> b | Some v \<Rightarrow> if py_truthy v then Some v else b)"

definition float_or :: "real option \<Rightarrow> real option \<Rightarrow> real option" where
  "float_or a b = (case a of None \<Rightarrow> b | Some v \<Rightarrow> if v \<noteq> 0 then Some v else b)"

definition str_or :: "string option \<Rightarrow> string \<Rightarrow> string" where
  "str_or a b = (case a of None \<Rightarrow> b | Some s \<Rightarrow> if s \<noteq> [] then s else b)"

text \<open>\<^verbatim>\<open>ensure_utc\<close>: the result is the UTC instant in microseconds. A naive datetime is
  read as UTC. Reading \<^verbatim>\<open>.tzinfo\<close> of a value that is not a datetime raises
  AttributeError, which nothing catches.\<close>

definition ensure_utc :: "pyval option \<Rightarrow> error + int option" where
  "ensure_utc dt_value =
     (case dt_value of
        None \<Rightarrow> Inr None
      | Some (VDatetime d) \<Rightarrow>
          (case utcoffset_us d of
             None \<Rightarrow> Inr (Some (wall_us d))
           | Some off \<Rightarrow> Inr (Some (wall_us d - off)))
      | Some _ \<Rightarrow> Inl AttributeError)"

text \<open>What Python's datetime library renders from an instant: the ISO-8601 text in the
  host's time zone, the ISO-8601 text in UTC with \<^verbatim>\<open>+00:00\<close> replaced by \<^verbatim>\<open>Z\<close>, and the
  calendar date in the host's time zone. The calendar and the host's time zone are not
  part of the program, so the three renderings are parameters of the model.\<close>

record time_fmt =
  fmt_iso_local :: "int \<Rightarrow> string"
  fmt_iso_utc :: "int \<Rightarrow> string"
  fmt_local_date :: "int \<Rightarrow> string"

definition lower_char :: "char \<Rightarrow> char" where
  "lower_char c =
     (case map_of (zip ''ABCDEFGHIJKLMNOPQRSTUVWXYZ'' ''abcdefghijklmnopqrstuvwxyz'') c of
        None \<Rightarrow> c
      | Some l \<Rightarrow> l)"

text \<open>\<^verbatim>\<open>str(sport_value).lower() == "running"\<close>. Only a string can render as that word:
  the text of a number, a boolean, a datetime or a tuple never does.\<close>

fun sport_is_running :: "pyval \<Rightarrow> bool" where
  "sport_is_running (VStr s r) = (map lower_char s = ''running'')"
| "sport_is_running _ = False"

fun str_of_nat :: "nat \<Rightarrow> string" where
  "str_of_nat n =
     (if n < 10 then [''0123456789'' ! n]
      else str_of_nat (n div 10) @ [''0123456789'' ! (n mod 10)])"

definition str_of_int :: "int \<Rightarrow> string" where
  "str_of_int i = (if i < 0 then CHR ''-'' # str_of_nat (nat (- i)) else str_of_nat (nat i))"

text \<open>\<^verbatim>\<open>int(start_time.timestamp())\<close>: whole seconds, truncated towards zero.\<close>

definition epoch_seconds :: "int \<Rightarrow> int" where
  "epoch_seconds us = (if us < 0 then - ((- us) div 1000000) else us div 1000000)"

text \<open>A frame of the decoded file: a data message with its name and its fields in
  order, or any other frame.\<close>

datatype frame =
    FitDataMessage string "(string \<times> pyval option) list"
  | OtherFrame

definition get_field_map :: "(string \<times> pyval option) list \<Rightarrow> fields" where
  "get_field_map fs = foldl (\<lambda>m (name, v). m(name := v)) Map.empty fs"

text \<open>The loop over the frames, on the pair \<^verbatim>\<open>(session, records)\<close>.\<close>

fun read_frames :: "frame list \<Rightarrow> fields option \<times> fields list \<Rightarrow> fields option \<times> fields list" where
  "read_frames [] acc = acc"
| "read_frames (OtherFrame # fs) acc = read_frames fs acc"
| "read_frames (FitDataMessage name flds # fs) (session, records) =
     (if name = ''session'' then read_frames fs (Some (get_field_map flds), records)
      else if name = ''record'' then read_frames fs (session, records @ [get_field_map flds])
      else read_frames fs (session, records))"

text \<open>The local variables of the loop over the records.\<close>

record scan_state =
  first_ts :: "int option"
  last_ts :: "int option"
  last_distance :: "real option"
  hr_sum :: real
  hr_count :: nat
  first_lat :: "real option"
  first_lon :: "real option"

definition scan_init :: scan_state where
  "scan_init = \<lparr>first_ts = None, last_ts = None, last_distance = None, hr_sum = 0,
     hr_count = 0, first_lat = None, first_lon = None\<rparr>"

definition record_step :: "fields \<Rightarrow> scan_state \<Rightarrow> error + scan_state" where
  "record_step record s =
     (case ensure_utc (record ''timestamp'') of
        Inl e \<Rightarrow> Inl e
      | Inr ts \<Rightarrow>
          (let s1 = (case ts of
                       None \<Rightarrow> s
                     | Some t \<Rightarrow>
                         s\<lparr>first_ts := (if first_ts s = None then Some t else first_ts s),
                           last_ts := Some t\<rparr>);
               s2 = (case record ''distance'' of
                       None \<Rightarrow> s1
                     | Some v \<Rightarrow>
                         (case py_float v of
                            None \<Rightarrow> s1
                          | Some d \<Rightarrow> s1\<lparr>last_distance := Some d\<rparr>));
               s3 = (case record ''heart_rate'' of
                       None \<Rightarrow> s2
                     | Some hr \<Rightarrow>
                         (case py_float hr of
                            None \<Rightarrow> s2
                          | Some h \<Rightarrow> s2\<lparr>hr_sum := hr_sum s2 + h, hr_count := hr_count s2 + 1\<rparr>));
               s4 = (if first_lat s3 = None \<or> first_lon s3 = None
                     then (let lat = normalize_lat_lon (record ''position_lat'');
                               lon = normalize_lat_lon (record ''position_long'')
                           in if lat \<noteq> None \<and> lon \<noteq> None
                              then s3\<lparr>first_lat := lat, first_lon := lon\<rparr>
                              else s3)
                     else s3)
           in Inr s4))"

fun scan_records :: "fields list \<Rightarrow> scan_state \<Rightarrow> error + scan_state" where
  "scan_records [] s = Inr s"
| "scan_records (record # records) s =
     (case record_step record s of
        Inl e \<Rightarrow> Inl e
      | Inr s' \<Rightarrow> scan_records records s')"

record activity =
  a_id :: string
  a_sourceFile :: string
  a_sport :: string
  a_startTime :: string
  a_startTimeUtc :: "string option"
  a_date :: string
  a_distanceM :: "real option"
  a_durationS :: "real option"
  a_paceSecPerKm :: "real option"
  a_avgHr :: "real option"
  a_lat :: "real option"
  a_lon :: "real option"
  a_city :: "string option"
  a_country :: "string option"
  a_admin1 :: "string option"

text \<open>The input file: the stem and the name of its path, and what the decoder yields, the
  frames or \<open>None\<close> when it raises FitError before the end.\<close>

record fit_path =
  stem :: string
  name :: string
  decoded :: "frame list option"

text \<open>Lines 171 to 178: the distance, from the session or else from the records, then
  coerced.\<close>

definition distance_of :: "fields \<Rightarrow> scan_state \<Rightarrow> real option" where
  "distance_of session s =
     (let distance_m = (case session ''total_distance'' of
                          None \<Rightarrow> map_option VFloat (last_distance s)
                        | Some v \<Rightarrow> Some v)
      in case distance_m of None \<Rightarrow> None | Some v \<Rightarrow> py_float v)"

text \<open>Lines 180 to 187: the duration; the difference of two instants in seconds.\<close>

definition duration_of :: "fields \<Rightarrow> scan_state \<Rightarrow> real option" where
  "duration_of session s =
     (let duration_s = (case session ''total_timer_time'' of
                          None \<Rightarrow>
                            (case (first_ts s, last_ts s) of
                               (Some f, Some l) \<Rightarrow> Some (VFloat (of_int (l - f) / 1000000))
                             | _ \<Rightarrow> None)
                        | Some v \<Rightarrow> Some v)
      in case duration_s of None \<Rightarrow> None | Some v \<Rightarrow> py_float v)"

text \<open>Lines 189 to 196: the average heart rate.\<close>

definition avg_hr_of :: "fields \<Rightarrow> scan_state \<Rightarrow> real option" where
  "avg_hr_of session s =
     (let avg_hr = (case session ''avg_heart_rate'' of
                      None \<Rightarrow>
                        if hr_count s > 0 then Some (VFloat (hr_sum s / of_nat (hr_count s)))
                        else None
                    | Some v \<Rightarrow> Some v)
      in case avg_hr of None \<Rightarrow> None | Some v \<Rightarrow> py_float v)"

text \<open>Lines 201 to 203: \<^verbatim>\<open>if distance_m and duration_s and distance_m > 0\<close> tests the
  truth value of both floats, which zero does not have.\<close>

definition pace_of :: "real option \<Rightarrow> real option \<Rightarrow> real option" where
  "pace_of distance_m duration_s =
     (case (distance_m, duration_s) of
        (Some d, Some t) \<Rightarrow>
          if d \<noteq> 0 \<and> t \<noteq> 0 \<and> d > 0 then Some (t / (d / 1000)) else None
      | _ \<Rightarrow> None)"

text \<open>Lines 205 to 213: the three labels of the start position, and the cache as the
  lookup leaves it.\<close>

definition resolve_city ::
  "rounding \<Rightarrow> city_rec list option \<Rightarrow> real option \<Rightarrow> real option \<Rightarrow> cache \<Rightarrow> real option
     \<Rightarrow> error + (string \<times> string option \<times> string option) \<times> cache" where
  "resolve_city err cities start_lat start_lon city_cache max_city_km =
     (case cities of
        None \<Rightarrow> Inr ((''unknown'', None, None), city_cache)
      | Some cs \<Rightarrow>
          (case city_lookup err start_lat start_lon cs city_cache max_city_km of
             Inl e \<Rightarrow> Inl e
           | Inr ((city, km), cache') \<Rightarrow>
               (case city of
                  None \<Rightarrow> Inr ((''unknown'', None, None), cache')
                | Some c \<Rightarrow>
                    Inr ((str_or (c_city c) ''unknown'', c_country c, c_admin1 c), cache'))))"

text \<open>Lines 171 to 234: what \<^verbatim>\<open>parse_fit_file\<close> does after the loop over the records.\<close>

definition summarize ::
  "rounding \<Rightarrow> time_fmt \<Rightarrow> fit_path \<Rightarrow> fields \<Rightarrow> int \<Rightarrow> scan_state \<Rightarrow> city_rec list option
     \<Rightarrow> cache \<Rightarrow> real option \<Rightarrow> error + activity \<times> cache" where
  "summarize err fmt path session start_time s cities city_cache max_city_km =
     (let distance_m = distance_of session s;
          duration_s = duration_of session s;
          avg_hr = avg_hr_of session s;
          start_lat = float_or (normalize_lat_lon (session ''start_position_lat'')) (first_lat s);
          start_lon = float_or (normalize_lat_lon (session ''start_position_long'')) (first_lon s);
          pace_sec_per_km = pace_of distance_m duration_s
      in case resolve_city err cities start_lat start_lon city_cache max_city_km of
           Inl e \<Rightarrow> Inl e
         | Inr ((city_name, country, admin1), cache') \<Rightarrow>
             Inr (\<lparr>a_id = stem path @ ''_'' @ str_of_int (epoch_seconds start_time),
               a_sourceFile = name path,
               a_sport = ''running'',
               a_startTime = fmt_iso_local fmt start_time,
               a_startTimeUtc = Some (fmt_iso_utc fmt start_time),
               a_date = fmt_local_date fmt start_time,
               a_distanceM = distance_m,
               a_durationS = duration_s,
               a_paceSecPerKm = pace_sec_per_km,
               a_avgHr = avg_hr,
               a_lat = start_lat,
               a_lon = start_lon,
               a_city = Some city_name,
               a_country = country,
               a_admin1 = admin1\<rparr>, cache'))"

text \<open>
  \<^verbatim>\<open>parse_fit_file\<close>. \<open>cities\<close> is \<open>None\<close> when city matching is switched off. The result
  is the activity (\<open>None\<close> for a skipped file) or the uncaught exception, and the cache
  as the call leaves it. The sport that passes the gate is the lower-case text
  \<^verbatim>\<open>running\<close>.
\<close>

definition parse_fit_file ::
  "rounding \<Rightarrow> time_fmt \<Rightarrow> fit_path \<Rightarrow> city_rec list option \<Rightarrow> cache \<Rightarrow> real option
     \<Rightarrow> (error + activity option) \<times> cache" where
  "parse_fit_file err fmt path cities city_cache max_city_km =
     (case decoded path of
        None \<Rightarrow> (Inr None, city_cache)
      | Some frames \<Rightarrow>
     (case fst (read_frames frames (None, [])) of
        None \<Rightarrow> (Inr None, city_cache)
      | Some session \<Rightarrow>
     if \<not> (case session ''sport'' of None \<Rightarrow> False | Some v \<Rightarrow> sport_is_running v)
     then (Inr None, city_cache)
     else
     (case ensure_utc (val_or (session ''start_time'') (session ''timestamp'')) of
        Inl e \<Rightarrow> (Inl e, city_cache)
      | Inr None \<Rightarrow> (Inr None, city_cache)
      | Inr (Some start_time) \<Rightarrow>
     (case scan_records (snd (read_frames frames (None, []))) scan_init of
        Inl e \<Rightarrow> (Inl e, city_cache)
      | Inr s \<Rightarrow>
     (case summarize err fmt path session start_time s cities city_cache max_city_km of
        Inl e \<Rightarrow> (Inl e, city_cache)
      | Inr (activity, cache') \<Rightarrow> (Inr (Some activity), cache'))))))"

text \<open>The session and the records that \<^verbatim>\<open>parse_fit_file\<close> reads from a file: the last
  session message and the record messages in order.\<close>

definition session_of :: "fit_path \<Rightarrow> fields option" where
  "session_of path =
     (case decoded path of None \<Rightarrow> None | Some frames \<Rightarrow> fst (read_frames frames (None, [])))"

definition records_of :: "fit_path \<Rightarrow> fields list" where
  "records_of path =
     (case decoded path of None \<Rightarrow> [] | Some frames \<Rightarrow> snd (read_frames frames (None, [])))"

section \<open>Aggregation\<close>

text \<open>The digest of an activity kept in its day, and the entry of a day.\<close>

record digest =
  g_id :: string
  g_startTime :: string
  g_startTimeUtc :: "string option"
  g_distanceM :: "real option"
  g_durationS :: "real option"
  g_paceSecPerKm :: "real option"
  g_avgHr :: "real option"

record daily_entry =
  d_date :: string
  d_distanceM :: real
  d_durationS :: real
  d_activities :: "digest list"

text \<open>\<^verbatim>\<open>activity.get(...) or 0.0\<close>.\<close>

definition or_zero :: "real option \<Rightarrow> real" where
  "or_zero a = (case a of None \<Rightarrow> 0 | Some v \<Rightarrow> if v \<noteq> 0 then v else 0)"

definition digest_of :: "activity \<Rightarrow> digest" where
  "digest_of activity =
     \<lparr>g_id = a_id activity,
      g_startTime = a_startTime activity,
      g_startTimeUtc = a_startTimeUtc activity,
      g_distanceM = a_distanceM activity,
      g_durationS = a_durationS activity,
      g_paceSecPerKm = a_paceSecPerKm activity,
      g_avgHr = a_avgHr activity\<rparr>"

text \<open>
  A Python dict keeps its keys in the order of their first insertion, and assigning to a
  key that is there keeps its place: an association list under \<open>AList.update\<close>.
  The body of the loop of \<^verbatim>\<open>build_daily\<close> fetches or creates the entry of the date and
  changes it in place.
\<close>

definition daily_step :: "(string \<times> daily_entry) list \<Rightarrow> activity \<Rightarrow> (string \<times> daily_entry) list" where
  "daily_step daily activity =
     (let date = a_date activity;
          entry = (case map_of daily date of
                     None \<Rightarrow> \<lparr>d_date = date, d_distanceM = 0, d_durationS = 0, d_activities = []\<rparr>
                   | Some e \<Rightarrow> e);
          distance_m = or_zero (a_distanceM activity);
          duration_s = or_zero (a_durationS activity)
      in AList.update date
           (entry\<lparr>d_distanceM := d_distanceM entry + distance_m,
                  d_durationS := d_durationS entry + duration_s,
                  d_activities := d_activities entry @ [digest_of activity]\<rparr>)
           daily)"

text \<open>The key of the sort of a day's activities:
  \<^verbatim>\<open>item.get("startTimeUtc") or item["startTime"]\<close>.\<close>

definition digest_key :: "digest \<Rightarrow> string" where
  "digest_key item = str_or (g_startTimeUtc item) (g_startTime item)"

text \<open>\<^verbatim>\<open>list.sort(key=...)\<close> is a stable sort, as \<open>sort_key\<close> is; strings compare
  character by character, a proper prefix first.\<close>

definition build_daily :: "activity list \<Rightarrow> daily_entry list" where
  "build_daily activities =
     (let daily = foldl daily_step [] activities;
          daily_list = sort_key d_date (map snd daily)
      in map (\<lambda>entry. entry\<lparr>d_activities := sort_key digest_key (d_activities entry)\<rparr>)
           daily_list)"

record city_entry =
  s_city :: string
  s_country :: "string option"
  s_admin1 :: "string option"
  s_runs :: nat
  s_distanceM :: real
  s_durationS :: real

record city_stat =
  r_city :: string
  r_country :: "string option"
  r_admin1 :: "string option"
  r_runs :: nat
  r_distanceM :: real
  r_avgPaceSecPerKm :: "real option"

type_synonym city_key = "string \<times> string option \<times> string option"

text \<open>Lines 335 to 339: one more run in the entry of a city, with its distance and its
  duration when they have a truth value.\<close>

definition entry_add :: "city_entry \<Rightarrow> activity \<Rightarrow> city_entry" where
  "entry_add entry activity =
     (let entry = entry\<lparr>s_runs := s_runs entry + 1\<rparr>;
          entry = (case a_distanceM activity of
                     None \<Rightarrow> entry
                   | Some d \<Rightarrow>
                       if d \<noteq> 0 then entry\<lparr>s_distanceM := s_distanceM entry + d\<rparr>
                       else entry)
      in case a_durationS activity of
           None \<Rightarrow> entry
         | Some t \<Rightarrow>
             if t \<noteq> 0 then entry\<lparr>s_durationS := s_durationS entry + t\<rparr>
             else entry)"

text \<open>The body of the first loop of \<^verbatim>\<open>build_city_stats\<close>.\<close>

definition city_step :: "(city_key \<times> city_entry) list \<Rightarrow> activity \<Rightarrow> (city_key \<times> city_entry) list" where
  "city_step stats activity =
     (let city = str_or (a_city activity) ''unknown''
      in if city = ''unknown'' then stats
         else
           (let key = (city, a_country activity, a_admin1 activity);
                entry = (case map_of stats key of
                           None \<Rightarrow>
                             \<lparr>s_city = fst key, s_country = fst (snd key),
                              s_admin1 = snd (snd key), s_runs = 0, s_distanceM = 0,
                              s_durationS = 0\<rparr>
                         | Some e \<Rightarrow> e)
            in AList.update key (entry_add entry activity) stats))"

definition city_result :: "city_entry \<Rightarrow> city_stat" where
  "city_result entry =
     (let avg_pace = (if s_distanceM entry > 0 \<and> s_durationS entry > 0
                      then Some (s_durationS entry / (s_distanceM entry / 1000))
                      else None)
      in \<lparr>r_city = s_city entry,
          r_country = s_country entry,
          r_admin1 = s_admin1 entry,
          r_runs = s_runs entry,
          r_distanceM = s_distanceM entry,
          r_avgPaceSecPerKm = avg_pace\<rparr>)"

text \<open>\<^verbatim>\<open>list.sort(key=..., reverse=True)\<close> sorts in descending order and keeps the
  order of elements with equal keys.\<close>

definition sort_key_desc :: "('a \<Rightarrow> 'k::linorder) \<Rightarrow> 'a list \<Rightarrow> 'a list" where
  "sort_key_desc f xs = rev (sort_key f (rev xs))"

definition build_city_stats :: "activity list \<Rightarrow> city_stat list" where
  "build_city_stats activities =
     (let stats = foldl city_step [] activities;
          results = map (city_result \<circ> snd) stats
      in sort_key_desc r_distanceM results)"

text \<open>The activities of a date, and whether an activity counts in the city statistics:
  \<^verbatim>\<open>activity.get("city") or "unknown"\<close> is not \<^verbatim>\<open>unknown\<close>.\<close>

definition day_of :: "string \<Rightarrow> activity list \<Rightarrow> activity list" where
  "day_of date activities = filter (\<lambda>a. a_date a = date) activities"

definition counted :: "activity \<Rightarrow> bool" where
  "counted a = (str_or (a_city a) ''unknown'' \<noteq> ''unknown'')"

section \<open>The specification's fallbacks\<close>

text \<open>The specification speaks of the last cumulative distance observed in the records and
  of the first valid position encountered. Stated on the list of records, without the
  loop: a record has a distance when its field converts to a number, and a position when
  both of its coordinates normalize.\<close>

definition record_distance :: "fields \<Rightarrow> real option" where
  "record_distance record = (case record ''distance'' of None \<Rightarrow> None | Some v \<Rightarrow> py_float v)"

definition spec_last_record_distance :: "fields list \<Rightarrow> real option" where
  "spec_last_record_distance records =
     (case rev (List.map_filter record_distance records) of [] \<Rightarrow> None | d # ds \<Rightarrow> Some d)"

definition record_position :: "fields \<Rightarrow> (real \<times> real) option" where
  "record_position record =
     (case (normalize_lat_lon (record ''position_lat''),
            normalize_lat_lon (record ''position_long'')) of
        (Some lat, Some lon) \<Rightarrow> Some (lat, lon)
      | _ \<Rightarrow> None)"

definition spec_first_record_position :: "fields list \<Rightarrow> (real \<times> real) option" where
  "spec_first_record_position records =
     (case List.map_filter record_position records of [] \<Rightarrow> None | p # ps \<Rightarrow> Some p)"

text \<open>
  The specification speaks of the great-circle distance by the haversine formula with an
  Earth radius of 6371 km. With \<open>hav \<theta> = (1 - cos \<theta>) / 2\<close>, the haversine of the central
  angle between two points is \<open>hav \<Delta>\<phi> + cos \<phi>1 * cos \<phi>2 * hav \<Delta>\<lambda>\<close> and the distance is
  \<open>2 * r * arcsin (sqrt a)\<close>. The program computes the haversine of the central angle in
  floating point, so the value that enters the distance is the exact one plus the
  rounding error; the distance is defined when that value lies between 0 and 1.
\<close>

definition spec_hav :: "real \<Rightarrow> real" where
  "spec_hav \<theta> = (1 - cos \<theta>) / 2"

definition spec_rounded_a :: "rounding \<Rightarrow> real \<Rightarrow> real \<Rightarrow> city_rec \<Rightarrow> real" where
  "spec_rounded_a err lat lon city =
     spec_hav ((c_lat city - lat) * pi / 180)
       + cos (lat * pi / 180) * cos (c_lat city * pi / 180)
           * spec_hav ((c_lon city - lon) * pi / 180)
       + err lat lon (c_lat city) (c_lon city)"

definition spec_city_km :: "rounding \<Rightarrow> real \<Rightarrow> real \<Rightarrow> city_rec \<Rightarrow> real" where
  "spec_city_km err lat lon city = 2 * 6371 * arcsin (sqrt (spec_rounded_a err lat lon city))"

definition in_domain :: "rounding \<Rightarrow> real \<Rightarrow> real \<Rightarrow> city_rec \<Rightarrow> bool" where
  "in_domain err lat lon city =
     (0 \<le> spec_rounded_a err lat lon city \<and> spec_rounded_a err lat lon city \<le> 1)"

section \<open>Sample inputs\<close>

text \<open>A file of one running activity that starts at 2023-11-14T22:13:20Z: its record
  messages, then its session message with the given further fields. The renderings of
  that instant are those of a host on UTC.\<close>

definition sample_start :: pyval where
  "sample_start = VDatetime \<lparr>wall_us = 1700000000000000, utcoffset_us = Some 0\<rparr>"

definition sample_run ::
  "(string \<times> pyval option) list \<Rightarrow> (string \<times> pyval option) list list \<Rightarrow> fit_path" where
  "sample_run session_fields record_fields =
     \<lparr>stem = ''run'', name = ''run.fit'',
      decoded = Some (map (FitDataMessage ''record'') record_fields @
        [FitDataMessage ''session''
           ([(''sport'', Some (VStr ''running'' None)), (''start_time'', Some sample_start)]
            @ session_fields)])\<rparr>"

definition sample_fmt :: time_fmt where
  "sample_fmt =
     \<lparr>fmt_iso_local = (\<lambda>t. ''2023-11-14T22:13:20+00:00''),
      fmt_iso_utc = (\<lambda>t. ''2023-11-14T22:13:20Z''),
      fmt_local_date = (\<lambda>t. ''2023-11-14'')\<rparr>"

text \<open>An arithmetic whose result on line 64 lies \<open>2 ^ -52\<close> above the exact value, as
  double precision gives it for the query point (8, 1) and a city at (-8, -179).\<close>

definition one_ulp_above :: rounding where
  "one_ulp_above lat1 lon1 lat2 lon2 = 1 / 2 ^ 52"

text \<open>An activity with the given id, local and UTC start time, date, distance and city,
  and nothing else.\<close>

definition sample_activity ::
  "string \<Rightarrow> string \<Rightarrow> string option \<Rightarrow> string \<Rightarrow> real option \<Rightarrow> string option \<Rightarrow> activity" where
  "sample_activity ident start start_utc date distance city =
     \<lparr>a_id = ident, a_sourceFile = ident @ ''.fit'', a_sport = ''running'',
      a_startTime = start, a_startTimeUtc = start_utc, a_date = date,
      a_distanceM = distance, a_durationS = None, a_paceSecPerKm = None, a_avgHr = None,
      a_lat = None, a_lon = None, a_city = city, a_country = None, a_admin1 = None\<rparr>"

section \<open>Properties of the geocoder\<close>

text \<open>In exact arithmetic the argument \<open>a\<close> of the two square roots of
  \<^verbatim>\<open>haversine_km\<close> lies in \<open>[0, 1]\<close>, so neither square root is taken of a negative
  number.\<close>

lemma cs_bound:
  fixes p q u :: real
  assumes "-1 \<le> p + q" "p + q \<le> 1" "-1 \<le> p - q" "p - q \<le> 1" "-1 \<le> u" "u \<le> 1"
  shows "-1 \<le> q + p * u \<and> q + p * u \<le> 1"
proof (cases "0 \<le> p")
  case True
  have "p * u \<le> p * 1" using True assms by (intro mult_left_mono) auto
  moreover have "p * (-1) \<le> p * u" using True assms by (intro mult_left_mono) auto
  ultimately show ?thesis using assms by auto
next
  case False
  then have np: "p \<le> 0" by simp
  have "p * u \<le> p * (-1)" using np assms by (intro mult_left_mono_neg) auto
  moreover have "p * 1 \<le> p * u" using np assms by (intro mult_left_mono_neg) auto
  ultimately show ?thesis using assms by auto
qed

lemma sin_half_sq: "(sin (x / 2))\<^sup>2 = (1 - cos x) / (2::real)"
  using cos_double_sin[of "x / 2"] by simp

lemma haversine_a_eq:
  "haversine_a lat1 lon1 lat2 lon2 =
     (1 - (sin (radians lat1) * sin (radians lat2)
           + cos (radians lat1) * cos (radians lat2) * cos (radians (lon2 - lon1)))) / 2"
proof -
  have d: "radians (lat2 - lat1) = radians lat2 - radians lat1"
    by (simp add: radians_def diff_divide_distrib left_diff_distrib)
  show ?thesis
    unfolding haversine_a_def Let_def sin_half_sq d cos_diff
    by (simp add: field_simps)
qed

lemma haversine_a_bounds:
  "0 \<le> haversine_a lat1 lon1 lat2 lon2 \<and> haversine_a lat1 lon1 lat2 lon2 \<le> 1"
proof -
  let ?p = "cos (radians lat1) * cos (radians lat2)"
  let ?q = "sin (radians lat1) * sin (radians lat2)"
  let ?u = "cos (radians (lon2 - lon1))"
  have a: "-1 \<le> ?p + ?q \<and> ?p + ?q \<le> 1"
    using cos_ge_minus_one[of "radians lat1 - radians lat2"] cos_le_one[of "radians lat1 - radians lat2"]
    by (simp add: cos_diff)
  have b: "-1 \<le> ?p - ?q \<and> ?p - ?q \<le> 1"
    using cos_ge_minus_one[of "radians lat1 + radians lat2"] cos_le_one[of "radians lat1 + radians lat2"]
    by (simp add: cos_add)
  have "-1 \<le> ?q + ?p * ?u \<and> ?q + ?p * ?u \<le> 1"
    using a b by (intro cs_bound) auto
  then show ?thesis
    unfolding haversine_a_eq by simp
qed


lemma haversine_a_spec:
  "haversine_a lat1 lon1 lat2 lon2 =
     spec_hav ((lat2 - lat1) * pi / 180)
       + cos (lat1 * pi / 180) * cos (lat2 * pi / 180) * spec_hav ((lon2 - lon1) * pi / 180)"
  by (simp add: haversine_a_def radians_def spec_hav_def sin_half_sq Let_def)

lemma atan2_arcsin:
  assumes "0 \<le> a" "a \<le> 1"
  shows "atan2 (sqrt a) (sqrt (1 - a)) = arcsin (sqrt a)"
proof (cases "a = 1")
  case True
  then show ?thesis by (simp add: atan2_def)
next
  case False
  with assms have lt: "a < 1" by simp
  have p: "0 < sqrt (1 - a)" using lt by simp
  have x: "- 1 < sqrt a \<and> sqrt a < 1" using assms lt
    by (metis less_le_trans neg_less_0_iff_less real_sqrt_ge_zero real_sqrt_less_iff real_sqrt_one zero_less_one)
  have "arcsin (sqrt a) = arctan (sqrt a / sqrt (1 - (sqrt a)\<^sup>2))"
    using x by (intro arcsin_arctan) auto
  also have "\<dots> = arctan (sqrt a / sqrt (1 - a))" using assms by simp
  finally show ?thesis using p by (simp add: atan2_def)
qed

lemma city_km_spec:
  assumes "in_domain err lat lon city"
  shows "city_km err lat lon city = Inr (spec_city_km err lat lon city)"
proof -
  let ?a = "haversine_a lat lon (c_lat city) (c_lon city) + err lat lon (c_lat city) (c_lon city)"
  have a: "?a = spec_rounded_a err lat lon city"
    by (simp only: haversine_a_spec spec_rounded_a_def)
  have d: "0 \<le> ?a \<and> ?a \<le> 1" using assms unfolding a in_domain_def .
  then have "atan2 (sqrt ?a) (sqrt (1 - ?a)) = arcsin (sqrt ?a)"
    by (intro atan2_arcsin) auto
  then have "city_km err lat lon city = Inr (6371 * (2 * arcsin (sqrt ?a)))"
    using d by (simp add: city_km_def haversine_km_def Let_def)
  then show ?thesis unfolding a by (simp add: spec_city_km_def)
qed

lemma city_km_error:
  assumes "\<not> in_domain err lat lon city"
  shows "city_km err lat lon city = Inl ValueError"
proof -
  let ?a = "haversine_a lat lon (c_lat city) (c_lon city) + err lat lon (c_lat city) (c_lon city)"
  have a: "?a = spec_rounded_a err lat lon city"
    by (simp only: haversine_a_spec spec_rounded_a_def)
  have "?a < 0 \<or> 1 - ?a < 0" using assms unfolding a in_domain_def by auto
  then show ?thesis by (simp add: city_km_def haversine_km_def Let_def)
qed

lemma in_domain_exact: "in_domain exact_arith lat lon city"
proof -
  have "spec_rounded_a exact_arith lat lon city = haversine_a lat lon (c_lat city) (c_lon city)"
    by (simp add: haversine_a_spec spec_rounded_a_def exact_arith_def)
  then show ?thesis using haversine_a_bounds[of lat lon "c_lat city" "c_lon city"]
    by (simp add: in_domain_def)
qed

lemma nearest_scan_step:
  assumes "in_domain err lat lon c"
  shows "nearest_scan err lat lon (c # cs) (best, best_km) =
     (if (case best_km of None \<Rightarrow> True | Some b \<Rightarrow> spec_city_km err lat lon c < b)
      then nearest_scan err lat lon cs (Some c, Some (spec_city_km err lat lon c))
      else nearest_scan err lat lon cs (best, best_km))"
  using city_km_spec[OF assms] by (simp add: city_km_def)

lemma nearest_scan_split:
  assumes "\<forall>x\<in>set cities. in_domain err lat lon x"
  shows "\<exists>pre c post. b # cities = pre @ c # post
      \<and> (\<forall>x\<in>set pre. spec_city_km err lat lon c < spec_city_km err lat lon x)
      \<and> (\<forall>x\<in>set post. spec_city_km err lat lon c \<le> spec_city_km err lat lon x)
      \<and> nearest_scan err lat lon cities (Some b, Some (spec_city_km err lat lon b))
          = Inr (Some c, Some (spec_city_km err lat lon c))"
  using assms
proof (induction cities arbitrary: b)
  case Nil
  show ?case by (rule exI[of _ "[]"], rule exI[of _ b], rule exI[of _ "[]"]) simp
next
  case (Cons c cs)
  let ?D = "spec_city_km err lat lon"
  have dc: "in_domain err lat lon c" and dcs: "\<forall>x\<in>set cs. in_domain err lat lon x"
    using Cons.prems by simp_all
  show ?case
  proof (cases "?D c < ?D b")
    case True
    from Cons.IH[OF dcs, of c] obtain pre m post where
      s: "c # cs = pre @ m # post" and
      p: "\<forall>x\<in>set pre. ?D m < ?D x" and
      q: "\<forall>x\<in>set post. ?D m \<le> ?D x" and
      r: "nearest_scan err lat lon cs (Some c, Some (?D c)) = Inr (Some m, Some (?D m))"
      by blast
    have mc: "?D m \<le> ?D c"
    proof (cases pre)
      case Nil with s show ?thesis by simp
    next
      case (Cons a as)
      with s have "c \<in> set pre" by simp
      with p show ?thesis by force
    qed
    have "b # c # cs = (b # pre) @ m # post" using s by simp
    moreover have "\<forall>x\<in>set (b # pre). ?D m < ?D x"
      using p mc True by auto
    moreover have "nearest_scan err lat lon (c # cs) (Some b, Some (?D b)) = Inr (Some m, Some (?D m))"
      using True r by (subst nearest_scan_step[OF dc]) simp
    ultimately show ?thesis using q by blast
  next
    case False
    from Cons.IH[OF dcs, of b] obtain pre m post where
      s: "b # cs = pre @ m # post" and
      p: "\<forall>x\<in>set pre. ?D m < ?D x" and
      q: "\<forall>x\<in>set post. ?D m \<le> ?D x" and
      r: "nearest_scan err lat lon cs (Some b, Some (?D b)) = Inr (Some m, Some (?D m))"
      by blast
    have r': "nearest_scan err lat lon (c # cs) (Some b, Some (?D b)) = Inr (Some m, Some (?D m))"
      using False r by (subst nearest_scan_step[OF dc]) simp
    show ?thesis
    proof (cases pre)
      case Nil
      with s have mb: "m = b" and pc: "post = cs" by simp_all
      have "b # c # cs = [] @ m # (c # post)" using mb pc by simp
      moreover have "\<forall>x\<in>set (c # post). ?D m \<le> ?D x"
        using q False mb by auto
      ultimately show ?thesis using r' by (metis empty_iff empty_set)
    next
      case (Cons a as)
      with s have ab: "a = b" and cs: "cs = as @ m # post" by simp_all
      have mb: "?D m < ?D b" using p Cons ab by simp
      have "b # c # cs = (b # c # as) @ m # post" using cs by simp
      moreover have "\<forall>x\<in>set (b # c # as). ?D m < ?D x"
        using p Cons ab mb False by auto
      ultimately show ?thesis using q r' by blast
    qed
  qed
qed

lemma split_min:
  fixes f :: "'a \<Rightarrow> real"
  assumes "xs = pre @ c # post" "\<forall>x\<in>set pre. f c < f x" "\<forall>x\<in>set post. f c \<le> f x"
  shows "f c = Min (f ` set xs)"
proof -
  have "\<forall>y\<in>f ` set xs. f c \<le> y" using assms by auto
  moreover have "f c \<in> f ` set xs" using assms by simp
  ultimately show ?thesis by (intro Min_eqI[symmetric]) auto
qed

lemma find_nearest_city_split:
  assumes "cities \<noteq> []" and "\<forall>x\<in>set cities. in_domain err lat lon x"
  shows "\<exists>pre c post. cities = pre @ c # post
      \<and> (\<forall>x\<in>set pre. spec_city_km err lat lon c < spec_city_km err lat lon x)
      \<and> (\<forall>x\<in>set post. spec_city_km err lat lon c \<le> spec_city_km err lat lon x)
      \<and> find_nearest_city err lat lon cities max_km =
          Inr (if (case max_km of None \<Rightarrow> False | Some m \<Rightarrow> m < spec_city_km err lat lon c)
               then None else Some c,
               Some (spec_city_km err lat lon c))"
proof -
  let ?D = "spec_city_km err lat lon"
  from assms(1) obtain b bs where cs: "cities = b # bs" by (cases cities) auto
  have db: "in_domain err lat lon b" and dbs: "\<forall>x\<in>set bs. in_domain err lat lon x"
    using assms(2) cs by simp_all
  from nearest_scan_split[OF dbs, of b] obtain pre c post where
    s: "b # bs = pre @ c # post" and
    p: "\<forall>x\<in>set pre. ?D c < ?D x" and
    q: "\<forall>x\<in>set post. ?D c \<le> ?D x" and
    r: "nearest_scan err lat lon bs (Some b, Some (?D b)) = Inr (Some c, Some (?D c))"
    by blast
  have "nearest_scan err lat lon (b # bs) (None, None) = Inr (Some c, Some (?D c))"
    using r by (subst nearest_scan_step[OF db]) simp
  then have "nearest_scan err lat lon cities (None, None) = Inr (Some c, Some (?D c))"
    by (simp only: cs)
  then have "find_nearest_city err lat lon cities max_km =
          Inr (if (case max_km of None \<Rightarrow> False | Some m \<Rightarrow> m < ?D c) then None else Some c,
               Some (?D c))"
    by (simp add: find_nearest_city_def split: option.splits)
  with s p q cs show ?thesis by blast
qed

lemma haversine_km_antipode: "haversine_km exact_arith 0 0 0 180 = Inr (6371 * pi)"
  by (simp add: haversine_km_def haversine_a_def radians_def atan2_def exact_arith_def Let_def)

lemma haversine_km_same: "haversine_km exact_arith x y x y = Inr 0"
  by (simp add: haversine_km_def haversine_a_def radians_def atan2_def exact_arith_def Let_def)

text \<open>For the query point (8, 1) and a city at (-8, -179), which lie opposite on the globe,
  the exact value of line 64 is 1; an arithmetic that gives \<open>1 + 2 ^ -52\<close> there makes line 65
  raise, and the search with it.\<close>

lemma haversine_a_opposite: "haversine_a 8 1 (- 8) (- 179) = 1"
proof -
  have "haversine_a 8 1 (- 8) (- 179) = (sin (- (8 * pi / 180)))\<^sup>2 + (cos (8 * pi / 180))\<^sup>2 * (sin (- (pi / 2)))\<^sup>2"
    by (simp add: haversine_a_def radians_def Let_def power2_eq_square)
  also have "\<dots> = (sin (8 * pi / 180))\<^sup>2 + (cos (8 * pi / 180))\<^sup>2"
    by simp
  finally show ?thesis by simp
qed

lemma find_nearest_city_value_error:
  "find_nearest_city one_ulp_above 8 1
     [\<lparr>c_city = Some ''Opposite'', c_country = None, c_admin1 = None,
       c_lat = - 8, c_lon = - 179\<rparr>]
     (Some 100)
   = Inl ValueError"
  by (simp add: find_nearest_city_def haversine_km_def haversine_a_opposite one_ulp_above_def)

lemma spec_city_km_antipode:
  "spec_city_km exact_arith 0 0 \<lparr>c_city = n, c_country = k, c_admin1 = d, c_lat = 0, c_lon = 180\<rparr>
     = 6371 * pi"
  by (simp add: spec_city_km_def spec_rounded_a_def spec_hav_def exact_arith_def)

lemma spec_city_km_same:
  "spec_city_km exact_arith x y \<lparr>c_city = n, c_country = k, c_admin1 = d, c_lat = x, c_lon = y\<rparr> = 0"
  by (simp add: spec_city_km_def spec_rounded_a_def spec_hav_def exact_arith_def)

text \<open>
  Claim C4, as amended. For a non-empty city list on which no distance computation raises
  (the haversine of every central angle, as computed, lies between 0 and 1),
  \<^verbatim>\<open>find_nearest_city\<close> selects a city whose haversine distance to the query point, with
  an Earth radius of 6371 km, is the minimum over the list, and among the cities at that
  minimum the first in input order: every city before the selected one is strictly
  farther, every city after it is at least as far. It reports that distance, and it
  returns the selected city when no maximum radius is given or the minimum does not
  exceed it, and no city otherwise.
\<close>

theorem find_nearest_city_first_min:
  assumes "cities \<noteq> []" and "\<forall>x\<in>set cities. in_domain err lat lon x"
  shows "\<exists>pre c post. cities = pre @ c # post
      \<and> (\<forall>x\<in>set pre. spec_city_km err lat lon c < spec_city_km err lat lon x)
      \<and> (\<forall>x\<in>set post. spec_city_km err lat lon c \<le> spec_city_km err lat lon x)
      \<and> spec_city_km err lat lon c = Min (spec_city_km err lat lon ` set cities)
      \<and> find_nearest_city err lat lon cities max_km =
          Inr (if (case max_km of None \<Rightarrow> False | Some m \<Rightarrow> m < spec_city_km err lat lon c)
               then None else Some c,
               Some (spec_city_km err lat lon c))"
proof -
  let ?D = "spec_city_km err lat lon"
  from find_nearest_city_split[OF assms, of max_km] obtain pre c post where
    s: "cities = pre @ c # post" and
    p: "\<forall>x\<in>set pre. ?D c < ?D x" and
    q: "\<forall>x\<in>set post. ?D c \<le> ?D x" and
    r: "find_nearest_city err lat lon cities max_km =
          Inr (if (case max_km of None \<Rightarrow> False | Some m \<Rightarrow> m < ?D c) then None else Some c,
               Some (?D c))"
    by blast
  have "?D c = Min (?D ` set cities)"
    using s p q by (rule split_min)
  with s p q r show ?thesis by blast
qed

theorem find_nearest_city_first_min_witness:
  "find_nearest_city exact_arith 0 0
     [\<lparr>c_city = Some ''Far'', c_country = None, c_admin1 = None, c_lat = 0, c_lon = 180\<rparr>,
      \<lparr>c_city = Some ''Here'', c_country = None, c_admin1 = None, c_lat = 0, c_lon = 0\<rparr>,
      \<lparr>c_city = Some ''Also here'', c_country = None, c_admin1 = None, c_lat = 0, c_lon = 0\<rparr>]
     (Some 100)
   = Inr (Some \<lparr>c_city = Some ''Here'', c_country = None, c_admin1 = None, c_lat = 0, c_lon = 0\<rparr>,
      Some 0)"
  using find_nearest_city_first_min[of
     "[\<lparr>c_city = Some ''Far'', c_country = None, c_admin1 = None, c_lat = 0, c_lon = 180\<rparr>,
      \<lparr>c_city = Some ''Here'', c_country = None, c_admin1 = None, c_lat = 0, c_lon = 0\<rparr>,
      \<lparr>c_city = Some ''Also here'', c_country = None, c_admin1 = None, c_lat = 0, c_lon = 0\<rparr>]"
     exact_arith 0 0 "Some 100"]
  by (auto simp: Cons_eq_append_conv in_domain_exact spec_city_km_antipode spec_city_km_same)

text \<open>The claim as it stands fails on a city list whose only city lies a quarter of the
  globe away from the query point, with a radius of 100 km: the list is not empty and no
  city is returned.\<close>

theorem find_nearest_city_rejects_counterexample:
  "find_nearest_city exact_arith 0 0
     [\<lparr>c_city = Some ''Pole'', c_country = None, c_admin1 = None, c_lat = 90, c_lon = 0\<rparr>]
     (Some 100)
   = Inr (None, Some (6371 * (pi / 2)))"
proof -
  have a: "haversine_a 0 0 90 0 = 1 / 2"
    by (simp add: haversine_a_def radians_def Let_def sin_45 power2_eq_square)
  have q: "atan2 (sqrt (1 / 2)) (sqrt (1 / 2)) = pi / 4"
    by (simp add: atan2_def arctan_one real_sqrt_divide)
  have "haversine_km exact_arith 0 0 90 0 = Inr (6371 * (pi / 2))"
    by (simp add: haversine_km_def a q exact_arith_def Let_def)
  moreover have "(100::real) < 6371 * (pi / 2)" using pi_ge_two by simp
  ultimately show ?thesis by (simp add: find_nearest_city_def)
qed



lemma city_lookup_keeps:
  assumes "city_lookup err lat lon cities cache max_km = Inr (r, cache')" and "cache k = Some v"
  shows "cache' k = Some v"
  using assms
  by (auto simp: city_lookup_def Let_def split: option.splits sum.splits)

lemma run_lookups_keeps:
  "run_lookups err queries cache = Inr cache' \<Longrightarrow> cache k = Some v \<Longrightarrow> cache' k = Some v"
proof (induction queries arbitrary: cache)
  case Nil
  then show ?case by simp
next
  case (Cons q qs)
  obtain lat lon cities max_km where q: "q = (lat, lon, cities, max_km)" by (cases q) auto
  from Cons.prems(1) obtain r c1 where
    1: "city_lookup err lat lon cities cache max_km = Inr (r, c1)" and
    2: "run_lookups err qs c1 = Inr cache'"
    unfolding q by (auto split: sum.splits)
  have "c1 k = Some v" using 1 Cons.prems(2) by (rule city_lookup_keeps)
  with 2 show ?case by (rule Cons.IH)
qed

lemma city_lookup_stores:
  assumes "city_lookup err (Some lat) (Some lon) cities cache max_km = Inr (r, cache')"
  shows "cache' (round3 lat, round3 lon) = Some r"
  using assms
  by (auto simp: city_lookup_def Let_def split: option.splits sum.splits)

lemma city_lookup_hit:
  assumes "cache (round3 lat, round3 lon) = Some r"
  shows "city_lookup err (Some lat) (Some lon) cities cache max_km = Inr (r, cache)"
  using assms by (simp add: city_lookup_def Let_def)

text \<open>
  Claim C6. After a lookup at \<open>(lat1, lon1)\<close> has returned, and after any further lookups
  on the same cache have returned, a lookup at any \<open>(lat2, lon2)\<close> with the same
  coordinates after rounding to three decimals returns the result of the first lookup
  and leaves the cache as it is, whatever arithmetic, city list and radius it is given:
  it runs no search. The result is in the cache under the rounded coordinates, also when
  it is negative (no city).
\<close>

theorem city_lookup_cached:
  assumes "city_lookup err (Some lat1) (Some lon1) cities cache max_km = Inr (r, cache1)"
      and "run_lookups err1 queries cache1 = Inr cache2"
      and "round3 lat2 = round3 lat1" and "round3 lon2 = round3 lon1"
  shows "cache2 (round3 lat1, round3 lon1) = Some r
       \<and> city_lookup err2 (Some lat2) (Some lon2) cities2 cache2 max_km2 = Inr (r, cache2)"
proof -
  have "cache1 (round3 lat1, round3 lon1) = Some r"
    using assms(1) by (rule city_lookup_stores)
  with assms(2) have k: "cache2 (round3 lat1, round3 lon1) = Some r"
    by (rule run_lookups_keeps)
  then have "cache2 (round3 lat2, round3 lon2) = Some r"
    by (simp only: assms(3,4))
  then have "city_lookup err2 (Some lat2) (Some lon2) cities2 cache2 max_km2 = Inr (r, cache2)"
    by (rule city_lookup_hit)
  with k show ?thesis by blast
qed

theorem city_lookup_cached_witness:
  "city_lookup exact_arith (Some 31.2304) (Some 121.4737) [] Map.empty (Some 100)
     = Inr ((None, None), [(31.23, 121.474) \<mapsto> (None, None)])
   \<and> run_lookups exact_arith
        [(Some 10, Some 30,
          [\<lparr>c_city = Some ''Khartoum'', c_country = Some ''SD'', c_admin1 = None,
            c_lat = 10, c_lon = 30\<rparr>], Some 100)]
        [(31.23, 121.474) \<mapsto> (None, None)]
     = Inr [(31.23, 121.474) \<mapsto> (None, None),
            (10, 30) \<mapsto>
              (Some \<lparr>c_city = Some ''Khartoum'', c_country = Some ''SD'', c_admin1 = None,
                 c_lat = 10, c_lon = 30\<rparr>, Some 0)]
   \<and> city_lookup exact_arith (Some 31.23041) (Some 121.47372)
        [\<lparr>c_city = Some ''Shanghai'', c_country = Some ''CN'', c_admin1 = None,
          c_lat = 31.23041, c_lon = 121.47372\<rparr>]
        [(31.23, 121.474) \<mapsto> (None, None),
         (10, 30) \<mapsto>
           (Some \<lparr>c_city = Some ''Khartoum'', c_country = Some ''SD'', c_admin1 = None,
              c_lat = 10, c_lon = 30\<rparr>, Some 0)]
        (Some 100)
     = Inr ((None, None),
        [(31.23, 121.474) \<mapsto> (None, None),
         (10, 30) \<mapsto>
           (Some \<lparr>c_city = Some ''Khartoum'', c_country = Some ''SD'', c_admin1 = None,
              c_lat = 10, c_lon = 30\<rparr>, Some 0)])
   \<and> find_nearest_city exact_arith 31.23041 121.47372
        [\<lparr>c_city = Some ''Shanghai'', c_country = Some ''CN'', c_admin1 = None,
          c_lat = 31.23041, c_lon = 121.47372\<rparr>]
        (Some 100)
     = Inr (Some \<lparr>c_city = Some ''Shanghai'', c_country = Some ''CN'', c_admin1 = None,
        c_lat = 31.23041, c_lon = 121.47372\<rparr>, Some 0)"
proof -
  have 1: "city_lookup exact_arith (Some 31.2304) (Some 121.4737) [] Map.empty (Some 100)
     = Inr ((None, None), [(31.23, 121.474) \<mapsto> (None, None)])"
    by (simp add: city_lookup_def find_nearest_city_def round3_def Let_def)
  have k: "round3 10 = 10 \<and> round3 30 = 30"
    by (simp add: round3_def Let_def)
  have 2: "run_lookups exact_arith
        [(Some 10, Some 30,
          [\<lparr>c_city = Some ''Khartoum'', c_country = Some ''SD'', c_admin1 = None,
            c_lat = 10, c_lon = 30\<rparr>], Some 100)]
        [(31.23, 121.474) \<mapsto> (None, None)]
     = Inr [(31.23, 121.474) \<mapsto> (None, None),
            (10, 30) \<mapsto>
              (Some \<lparr>c_city = Some ''Khartoum'', c_country = Some ''SD'', c_admin1 = None,
                 c_lat = 10, c_lon = 30\<rparr>, Some 0)]"
    by (simp add: city_lookup_def find_nearest_city_def haversine_km_same k Let_def)
  have 3: "round3 31.23041 = round3 31.2304" by (simp add: round3_def Let_def)
  have 4: "round3 121.47372 = round3 121.4737" by (simp add: round3_def Let_def)
  have 5: "find_nearest_city exact_arith 31.23041 121.47372
      [\<lparr>c_city = Some ''Shanghai'', c_country = Some ''CN'', c_admin1 = None,
        c_lat = 31.23041, c_lon = 121.47372\<rparr>]
      (Some 100)
     = Inr (Some \<lparr>c_city = Some ''Shanghai'', c_country = Some ''CN'', c_admin1 = None,
        c_lat = 31.23041, c_lon = 121.47372\<rparr>, Some 0)"
    by (simp add: find_nearest_city_def haversine_km_same)
  show ?thesis using city_lookup_cached[OF 1 2 3 4] 1 2 5 by simp
qed

text \<open>
  Claim C7. A numeric value of magnitude above 180 is normalized to \<open>v * 180 / 2^31\<close>, a
  value within \<open>[-180, 180]\<close> is returned unchanged; 2147483648 gives 180 and 45.0 gives 45.0.
\<close>

theorem normalize_lat_lon_semicircles:
  "(py_float x = Some v \<and> \<bar>v\<bar> > 180 \<longrightarrow> normalize_lat_lon (Some x) = Some (v * 180 / 2 ^ 31))
   \<and> (py_float x = Some v \<and> - 180 \<le> v \<and> v \<le> 180 \<longrightarrow> normalize_lat_lon (Some x) = Some v)
   \<and> normalize_lat_lon (Some (VInt 2147483648)) = Some 180
   \<and> normalize_lat_lon (Some (VFloat 45)) = Some 45"
  by (auto simp: normalize_lat_lon_def semicircles_to_deg_def)

theorem normalize_lat_lon_semicircles_witness:
  "normalize_lat_lon (Some (VInt (- 1073741824))) = Some (- 90)
   \<and> normalize_lat_lon (Some (VFloat (- 180))) = Some (- 180)"
  using normalize_lat_lon_semicircles[of "VInt (- 1073741824)" "- 1073741824"]
        normalize_lat_lon_semicircles[of "VFloat (- 180)" "- 180"]
  by simp

section \<open>Properties of the extraction\<close>

lemma parse_fit_file_Some:
  assumes "parse_fit_file err fmt path cities city_cache max_city_km = (Inr (Some a), cache')"
  shows "\<exists>frames session start_time s.
      decoded path = Some frames
    \<and> fst (read_frames frames (None, [])) = Some session
    \<and> (\<exists>v. session ''sport'' = Some v \<and> sport_is_running v)
    \<and> ensure_utc (val_or (session ''start_time'') (session ''timestamp'')) = Inr (Some start_time)
    \<and> scan_records (snd (read_frames frames (None, []))) scan_init = Inr s
    \<and> summarize err fmt path session start_time s cities city_cache max_city_km = Inr (a, cache')"
proof (cases "decoded path")
  case None
  with assms show ?thesis by (simp add: parse_fit_file_def)
next
  case (Some frames)
  note fr = this
  show ?thesis
  proof (cases "fst (read_frames frames (None, []))")
    case None
    with assms fr show ?thesis by (simp add: parse_fit_file_def)
  next
    case (Some session)
    with assms fr show ?thesis
      by (auto simp: parse_fit_file_def split: if_splits sum.splits option.splits prod.splits)
  qed
qed

lemma summarize_fields:
  assumes "summarize err fmt path session start_time s cities city_cache max_city_km = Inr (a, cache')"
  shows "a_distanceM a = distance_of session s"
    and "a_durationS a = duration_of session s"
    and "a_paceSecPerKm a = pace_of (a_distanceM a) (a_durationS a)"
    and "a_lat a = float_or (normalize_lat_lon (session ''start_position_lat'')) (first_lat s)"
    and "a_lon a = float_or (normalize_lat_lon (session ''start_position_long'')) (first_lon s)"
  using assms by (auto simp: summarize_def Let_def split: prod.splits sum.splits)

lemma summarize_city:
  assumes "summarize err fmt path session start_time s cities city_cache max_city_km = Inr (a, cache')"
  shows "\<exists>n co ad.
      resolve_city err cities (a_lat a) (a_lon a) city_cache max_city_km = Inr ((n, co, ad), cache')
    \<and> a_city a = Some n"
  using assms by (auto simp: summarize_def Let_def split: prod.splits sum.splits)


lemmas parse_eval =
  parse_fit_file_def sample_run_def sample_fmt_def sample_start_def get_field_map_def
  lower_char_def val_or_def ensure_utc_def scan_init_def record_step_def summarize_def
  distance_of_def duration_of_def avg_hr_of_def pace_of_def resolve_city_def float_or_def
  str_or_def normalize_lat_lon_def semicircles_to_deg_def str_of_int_def epoch_seconds_def
  session_of_def records_of_def exact_arith_def Let_def

lemma parse_fit_file_session:
  assumes "parse_fit_file err fmt path cities city_cache max_city_km = (Inr (Some a), cache')"
      and "session_of path = Some session"
  shows "\<exists>start_time s.
      scan_records (records_of path) scan_init = Inr s
    \<and> summarize err fmt path session start_time s cities city_cache max_city_km = Inr (a, cache')"
  using parse_fit_file_Some[OF assms(1)] assms(2)
  by (auto simp: session_of_def records_of_def)

subsection \<open>Pace\<close>

text \<open>
  Claim C1, as amended. For every activity that extraction returns, the pace is present
  if and only if the distance and the duration are present, the distance is positive and
  the duration is not zero; when present it is the duration divided by the distance in
  kilometres.
\<close>

theorem pace_present_iff:
  assumes "parse_fit_file err fmt path cities city_cache max_city_km = (Inr (Some a), cache')"
  shows "(a_paceSecPerKm a \<noteq> None \<longleftrightarrow>
           (\<exists>d t. a_distanceM a = Some d \<and> a_durationS a = Some t \<and> 0 < d \<and> t \<noteq> 0))
       \<and> (\<forall>p. a_paceSecPerKm a = Some p \<longrightarrow>
           (\<exists>d t. a_distanceM a = Some d \<and> a_durationS a = Some t \<and> p = t / (d / 1000)))"
proof -
  from parse_fit_file_Some[OF assms] obtain session start_time s where
    "summarize err fmt path session start_time s cities city_cache max_city_km = Inr (a, cache')"
    by blast
  then have "a_paceSecPerKm a = pace_of (a_distanceM a) (a_durationS a)"
    by (rule summarize_fields)
  then show ?thesis
    by (auto simp: pace_of_def split: option.splits if_splits)
qed

theorem pace_present_iff_witness:
  "parse_fit_file exact_arith sample_fmt
      (sample_run [(''total_distance'', Some (VInt 5000)), (''total_timer_time'', Some (VInt 1500))] [])
      None Map.empty (Some 100)
    = ((Inr (Some
        \<lparr>a_id = ''run_1700000000'', a_sourceFile = ''run.fit'', a_sport = ''running'',
         a_startTime = ''2023-11-14T22:13:20+00:00'',
         a_startTimeUtc = Some ''2023-11-14T22:13:20Z'', a_date = ''2023-11-14'',
         a_distanceM = Some 5000, a_durationS = Some 1500, a_paceSecPerKm = Some 300,
         a_avgHr = None, a_lat = None, a_lon = None, a_city = Some ''unknown'',
         a_country = None, a_admin1 = None\<rparr>)), Map.empty)
   \<and> (300::real) = 1500 / (5000 / 1000)"
proof -
  have e: "parse_fit_file exact_arith sample_fmt
      (sample_run [(''total_distance'', Some (VInt 5000)), (''total_timer_time'', Some (VInt 1500))] [])
      None Map.empty (Some 100)
    = ((Inr (Some
        \<lparr>a_id = ''run_1700000000'', a_sourceFile = ''run.fit'', a_sport = ''running'',
         a_startTime = ''2023-11-14T22:13:20+00:00'',
         a_startTimeUtc = Some ''2023-11-14T22:13:20Z'', a_date = ''2023-11-14'',
         a_distanceM = Some 5000, a_durationS = Some 1500, a_paceSecPerKm = Some 300,
         a_avgHr = None, a_lat = None, a_lon = None, a_city = Some ''unknown'',
         a_country = None, a_admin1 = None\<rparr>)), Map.empty)"
    by (simp add: parse_eval)
  show ?thesis using pace_present_iff[OF e] e by simp
qed

text \<open>The claim as it stands fails on a run of 5000 m with a timer time of zero: the
  distance and the duration are present and the distance is positive, and there is no
  pace.\<close>

theorem pace_zero_duration_counterexample:
  "parse_fit_file exact_arith sample_fmt
      (sample_run [(''total_distance'', Some (VInt 5000)), (''total_timer_time'', Some (VInt 0))] [])
      None Map.empty (Some 100)
    = ((Inr (Some
        \<lparr>a_id = ''run_1700000000'', a_sourceFile = ''run.fit'', a_sport = ''running'',
         a_startTime = ''2023-11-14T22:13:20+00:00'',
         a_startTimeUtc = Some ''2023-11-14T22:13:20Z'', a_date = ''2023-11-14'',
         a_distanceM = Some 5000, a_durationS = Some 0, a_paceSecPerKm = None,
         a_avgHr = None, a_lat = None, a_lon = None, a_city = Some ''unknown'',
         a_country = None, a_admin1 = None\<rparr>)), Map.empty)"
  by (simp add: parse_eval)

subsection \<open>Distance\<close>

lemma record_step_last_distance:
  "record_step record s = Inr s' \<Longrightarrow>
     last_distance s' = (case record_distance record of None \<Rightarrow> last_distance s | Some d \<Rightarrow> Some d)"
  by (auto simp: record_step_def record_distance_def Let_def split: sum.splits option.splits)

lemma scan_records_last_distance:
  "scan_records records s = Inr s' \<Longrightarrow>
     last_distance s' =
       (case rev (List.map_filter record_distance records) of
          [] \<Rightarrow> last_distance s
        | d # ds \<Rightarrow> Some d)"
proof (induction records arbitrary: s)
  case Nil
  then show ?case by (simp add: List.map_filter_simps)
next
  case (Cons r rs)
  from Cons.prems obtain s1 where
    1: "record_step r s = Inr s1" and 2: "scan_records rs s1 = Inr s'"
    by (auto split: sum.splits)
  show ?case
    using Cons.IH[OF 2] record_step_last_distance[OF 1]
    by (auto simp: List.map_filter_simps split: option.splits list.splits)
qed

text \<open>
  Claim C2, as amended. For every activity that extraction returns, the distance is the
  session's total distance converted to a number when that field is present, and absent
  when the field is present and does not convert; when the field is absent, the distance
  is the last numeric cumulative distance of the records, and absent when no record has
  one.
\<close>

theorem distance_prefers_session:
  assumes "parse_fit_file err fmt path cities city_cache max_city_km = (Inr (Some a), cache')"
      and "session_of path = Some session"
  shows "(\<forall>v. session ''total_distance'' = Some v \<longrightarrow> a_distanceM a = py_float v)
       \<and> (session ''total_distance'' = None \<longrightarrow>
            a_distanceM a = spec_last_record_distance (records_of path))"
proof -
  from parse_fit_file_session[OF assms] obtain start_time s where
    sc: "scan_records (records_of path) scan_init = Inr s" and
    su: "summarize err fmt path session start_time s cities city_cache max_city_km = Inr (a, cache')"
    by blast
  have d: "a_distanceM a = distance_of session s" using su by (rule summarize_fields)
  have l: "last_distance s = spec_last_record_distance (records_of path)"
    using scan_records_last_distance[OF sc]
    by (simp add: spec_last_record_distance_def scan_init_def split: list.splits)
  show ?thesis using d l
    by (auto simp: distance_of_def Let_def split: option.splits)
qed


theorem distance_prefers_session_witness:
  "parse_fit_file exact_arith sample_fmt
      (sample_run []
         [[(''distance'', Some (VFloat 400))],
          [(''distance'', Some (VStr ''n/a'' None))],
          [(''distance'', Some (VInt 1200))],
          [(''distance'', None)]])
      None Map.empty (Some 100)
    = ((Inr (Some
        \<lparr>a_id = ''run_1700000000'', a_sourceFile = ''run.fit'', a_sport = ''running'',
         a_startTime = ''2023-11-14T22:13:20+00:00'',
         a_startTimeUtc = Some ''2023-11-14T22:13:20Z'', a_date = ''2023-11-14'',
         a_distanceM = Some 1200, a_durationS = None, a_paceSecPerKm = None,
         a_avgHr = None, a_lat = None, a_lon = None, a_city = Some ''unknown'',
         a_country = None, a_admin1 = None\<rparr>)), Map.empty)
   \<and> parse_fit_file exact_arith sample_fmt
      (sample_run [(''total_distance'', Some (VInt 5000))]
         [[(''distance'', Some (VInt 1200))]])
      None Map.empty (Some 100)
    = ((Inr (Some
        \<lparr>a_id = ''run_1700000000'', a_sourceFile = ''run.fit'', a_sport = ''running'',
         a_startTime = ''2023-11-14T22:13:20+00:00'',
         a_startTimeUtc = Some ''2023-11-14T22:13:20Z'', a_date = ''2023-11-14'',
         a_distanceM = Some 5000, a_durationS = None, a_paceSecPerKm = None,
         a_avgHr = None, a_lat = None, a_lon = None, a_city = Some ''unknown'',
         a_country = None, a_admin1 = None\<rparr>)), Map.empty)"
proof -
  have e1: "parse_fit_file exact_arith sample_fmt
      (sample_run []
         [[(''distance'', Some (VFloat 400))],
          [(''distance'', Some (VStr ''n/a'' None))],
          [(''distance'', Some (VInt 1200))],
          [(''distance'', None)]])
      None Map.empty (Some 100)
    = ((Inr (Some
        \<lparr>a_id = ''run_1700000000'', a_sourceFile = ''run.fit'', a_sport = ''running'',
         a_startTime = ''2023-11-14T22:13:20+00:00'',
         a_startTimeUtc = Some ''2023-11-14T22:13:20Z'', a_date = ''2023-11-14'',
         a_distanceM = Some 1200, a_durationS = None, a_paceSecPerKm = None,
         a_avgHr = None, a_lat = None, a_lon = None, a_city = Some ''unknown'',
         a_country = None, a_admin1 = None\<rparr>)), Map.empty)"
    by (simp add: parse_eval)
  have s1: "session_of (sample_run []
         [[(''distance'', Some (VFloat 400))],
          [(''distance'', Some (VStr ''n/a'' None))],
          [(''distance'', Some (VInt 1200))],
          [(''distance'', None)]]) = Some (get_field_map
        ([(''sport'', Some (VStr ''running'' None)), (''start_time'', Some sample_start)] @ []))"
    by (simp add: session_of_def sample_run_def)
  have e2: "parse_fit_file exact_arith sample_fmt
      (sample_run [(''total_distance'', Some (VInt 5000))]
         [[(''distance'', Some (VInt 1200))]])
      None Map.empty (Some 100)
    = ((Inr (Some
        \<lparr>a_id = ''run_1700000000'', a_sourceFile = ''run.fit'', a_sport = ''running'',
         a_startTime = ''2023-11-14T22:13:20+00:00'',
         a_startTimeUtc = Some ''2023-11-14T22:13:20Z'', a_date = ''2023-11-14'',
         a_distanceM = Some 5000, a_durationS = None, a_paceSecPerKm = None,
         a_avgHr = None, a_lat = None, a_lon = None, a_city = Some ''unknown'',
         a_country = None, a_admin1 = None\<rparr>)), Map.empty)"
    by (simp add: parse_eval)
  have s2: "session_of (sample_run [(''total_distance'', Some (VInt 5000))]
         [[(''distance'', Some (VInt 1200))]]) = Some (get_field_map
        ([(''sport'', Some (VStr ''running'' None)), (''start_time'', Some sample_start)] @ [(''total_distance'', Some (VInt 5000))]))"
    by (simp add: session_of_def sample_run_def)
  show ?thesis
    using distance_prefers_session[OF e1 s1] distance_prefers_session[OF e2 s2] e1 e2
    by simp
qed

text \<open>The claim as it stands fails on a session whose total distance is the text
  \<^verbatim>\<open>n/a\<close> and whose only record has the distance 1200: the last numeric record distance
  is 1200, and the activity has no distance.\<close>

theorem distance_non_numeric_counterexample:
  "parse_fit_file exact_arith sample_fmt
      (sample_run [(''total_distance'', Some (VStr ''n/a'' None))]
         [[(''distance'', Some (VInt 1200))]])
      None Map.empty (Some 100)
    = ((Inr (Some
        \<lparr>a_id = ''run_1700000000'', a_sourceFile = ''run.fit'', a_sport = ''running'',
         a_startTime = ''2023-11-14T22:13:20+00:00'',
         a_startTimeUtc = Some ''2023-11-14T22:13:20Z'', a_date = ''2023-11-14'',
         a_distanceM = None, a_durationS = None, a_paceSecPerKm = None,
         a_avgHr = None, a_lat = None, a_lon = None, a_city = Some ''unknown'',
         a_country = None, a_admin1 = None\<rparr>)), Map.empty)
   \<and> spec_last_record_distance (records_of
      (sample_run [(''total_distance'', Some (VStr ''n/a'' None))]
         [[(''distance'', Some (VInt 1200))]])) = Some 1200"
  by (simp add: parse_eval spec_last_record_distance_def record_distance_def List.map_filter_simps)

subsection \<open>Start coordinates\<close>

lemma record_step_position:
  "record_step record s = Inr s' \<Longrightarrow>
     (first_lat s', first_lon s') =
       (if first_lat s = None \<or> first_lon s = None
        then (case record_position record of
                None \<Rightarrow> (first_lat s, first_lon s)
              | Some (lat, lon) \<Rightarrow> (Some lat, Some lon))
        else (first_lat s, first_lon s))"
  by (auto simp: record_step_def record_position_def Let_def split: sum.splits option.splits)

lemma scan_records_position_kept:
  "scan_records records s = Inr s' \<Longrightarrow> first_lat s \<noteq> None \<Longrightarrow> first_lon s \<noteq> None \<Longrightarrow>
     first_lat s' = first_lat s \<and> first_lon s' = first_lon s"
proof (induction records arbitrary: s)
  case Nil
  then show ?case by simp
next
  case (Cons r rs)
  from Cons.prems(1) obtain s1 where
    1: "record_step r s = Inr s1" and 2: "scan_records rs s1 = Inr s'"
    by (auto split: sum.splits)
  have k: "first_lat s1 = first_lat s \<and> first_lon s1 = first_lon s"
    using record_step_position[OF 1] Cons.prems(2,3) by simp
  show ?case using Cons.IH[OF 2] k Cons.prems(2,3) by simp
qed

lemma scan_records_position:
  "scan_records records s = Inr s' \<Longrightarrow> first_lat s = None \<Longrightarrow> first_lon s = None \<Longrightarrow>
     (first_lat s', first_lon s') =
       (case List.map_filter record_position records of
          [] \<Rightarrow> (None, None)
        | (lat, lon) # ps \<Rightarrow> (Some lat, Some lon))"
proof (induction records arbitrary: s)
  case Nil
  then show ?case by (simp add: List.map_filter_simps)
next
  case (Cons r rs)
  from Cons.prems(1) obtain s1 where
    1: "record_step r s = Inr s1" and 2: "scan_records rs s1 = Inr s'"
    by (auto split: sum.splits)
  show ?case
  proof (cases "record_position r")
    case None
    then have "first_lat s1 = None \<and> first_lon s1 = None"
      using record_step_position[OF 1] Cons.prems(2,3) by simp
    then show ?thesis using Cons.IH[OF 2] None by (simp add: List.map_filter_simps)
  next
    case (Some p)
    obtain lat lon where p: "p = (lat, lon)" by (cases p)
    have k: "first_lat s1 = Some lat \<and> first_lon s1 = Some lon"
      using record_step_position[OF 1] Cons.prems(2,3) Some p by simp
    then have "first_lat s' = Some lat \<and> first_lon s' = Some lon"
      using scan_records_position_kept[OF 2] by simp
    then show ?thesis using Some p by (simp add: List.map_filter_simps)
  qed
qed

text \<open>
  Claim C3, as amended. For every activity that extraction returns, and for each of the
  two axes on its own: when the session's start coordinate on that axis normalizes to a
  number other than zero, the activity has that number; when the session has no start
  coordinate on that axis, or one that does not convert, the activity has that axis of
  the first record position in which both coordinates are valid, and nothing when no
  record has such a position.
\<close>

theorem start_coordinates_per_axis:
  assumes "parse_fit_file err fmt path cities city_cache max_city_km = (Inr (Some a), cache')"
      and "session_of path = Some session"
  shows "(\<forall>v. normalize_lat_lon (session ''start_position_lat'') = Some v \<and> v \<noteq> 0 \<longrightarrow>
            a_lat a = Some v)
       \<and> (normalize_lat_lon (session ''start_position_lat'') = None \<longrightarrow>
            a_lat a = map_option fst (spec_first_record_position (records_of path)))
       \<and> (\<forall>v. normalize_lat_lon (session ''start_position_long'') = Some v \<and> v \<noteq> 0 \<longrightarrow>
            a_lon a = Some v)
       \<and> (normalize_lat_lon (session ''start_position_long'') = None \<longrightarrow>
            a_lon a = map_option snd (spec_first_record_position (records_of path)))"
proof -
  from parse_fit_file_session[OF assms] obtain start_time s where
    sc: "scan_records (records_of path) scan_init = Inr s" and
    su: "summarize err fmt path session start_time s cities city_cache max_city_km = Inr (a, cache')"
    by blast
  have la: "a_lat a = float_or (normalize_lat_lon (session ''start_position_lat'')) (first_lat s)"
    using su by (rule summarize_fields)
  have lo: "a_lon a = float_or (normalize_lat_lon (session ''start_position_long'')) (first_lon s)"
    using su by (rule summarize_fields)
  have "(first_lat s, first_lon s) =
       (case List.map_filter record_position (records_of path) of
          [] \<Rightarrow> (None, None)
        | (lat, lon) # ps \<Rightarrow> (Some lat, Some lon))"
    using sc by (rule scan_records_position) (simp_all add: scan_init_def)
  then have f: "first_lat s = map_option fst (spec_first_record_position (records_of path))
      \<and> first_lon s = map_option snd (spec_first_record_position (records_of path))"
    by (auto simp: spec_first_record_position_def split: list.splits)
  show ?thesis using la lo f by (simp add: float_or_def)
qed

theorem start_coordinates_per_axis_witness:
  "parse_fit_file exact_arith sample_fmt
      (sample_run [(''start_position_lat'', Some (VInt 119304647)),
                     (''start_position_long'', Some (VInt 357913941))]
         [[(''position_lat'', Some (VFloat 20)), (''position_long'', Some (VFloat 30))]])
      None Map.empty (Some 100)
    = ((Inr (Some
        \<lparr>a_id = ''run_1700000000'', a_sourceFile = ''run.fit'', a_sport = ''running'',
         a_startTime = ''2023-11-14T22:13:20+00:00'',
         a_startTimeUtc = Some ''2023-11-14T22:13:20Z'', a_date = ''2023-11-14'',
         a_distanceM = None, a_durationS = None, a_paceSecPerKm = None,
         a_avgHr = None, a_lat = Some (119304647 * 180 / 2 ^ 31), a_lon = Some (357913941 * 180 / 2 ^ 31), a_city = Some ''unknown'',
         a_country = None, a_admin1 = None\<rparr>)), Map.empty)
   \<and> parse_fit_file exact_arith sample_fmt
      (sample_run []
         [[(''position_lat'', Some (VFloat 15))],
          [(''position_lat'', Some (VFloat 20)), (''position_long'', Some (VFloat 30))],
          [(''position_lat'', Some (VFloat 21)), (''position_long'', Some (VFloat 31))]])
      None Map.empty (Some 100)
    = ((Inr (Some
        \<lparr>a_id = ''run_1700000000'', a_sourceFile = ''run.fit'', a_sport = ''running'',
         a_startTime = ''2023-11-14T22:13:20+00:00'',
         a_startTimeUtc = Some ''2023-11-14T22:13:20Z'', a_date = ''2023-11-14'',
         a_distanceM = None, a_durationS = None, a_paceSecPerKm = None,
         a_avgHr = None, a_lat = Some 20, a_lon = Some 30, a_city = Some ''unknown'',
         a_country = None, a_admin1 = None\<rparr>)), Map.empty)"
proof -
  have e1: "parse_fit_file exact_arith sample_fmt
      (sample_run [(''start_position_lat'', Some (VInt 119304647)),
                     (''start_position_long'', Some (VInt 357913941))]
         [[(''position_lat'', Some (VFloat 20)), (''position_long'', Some (VFloat 30))]])
      None Map.empty (Some 100)
    = ((Inr (Some
        \<lparr>a_id = ''run_1700000000'', a_sourceFile = ''run.fit'', a_sport = ''running'',
         a_startTime = ''2023-11-14T22:13:20+00:00'',
         a_startTimeUtc = Some ''2023-11-14T22:13:20Z'', a_date = ''2023-11-14'',
         a_distanceM = None, a_durationS = None, a_paceSecPerKm = None,
         a_avgHr = None, a_lat = Some (119304647 * 180 / 2 ^ 31), a_lon = Some (357913941 * 180 / 2 ^ 31), a_city = Some ''unknown'',
         a_country = None, a_admin1 = None\<rparr>)), Map.empty)"
    by (simp add: parse_eval)
  have s1: "session_of (sample_run [(''start_position_lat'', Some (VInt 119304647)),
                     (''start_position_long'', Some (VInt 357913941))]
         [[(''position_lat'', Some (VFloat 20)), (''position_long'', Some (VFloat 30))]]) = Some (get_field_map
        ([(''sport'', Some (VStr ''running'' None)), (''start_time'', Some sample_start)] @ [(''start_position_lat'', Some (VInt 119304647)),
                     (''start_position_long'', Some (VInt 357913941))]))"
    by (simp add: session_of_def sample_run_def)
  have e2: "parse_fit_file exact_arith sample_fmt
      (sample_run []
         [[(''position_lat'', Some (VFloat 15))],
          [(''position_lat'', Some (VFloat 20)), (''position_long'', Some (VFloat 30))],
          [(''position_lat'', Some (VFloat 21)), (''position_long'', Some (VFloat 31))]])
      None Map.empty (Some 100)
    = ((Inr (Some
        \<lparr>a_id = ''run_1700000000'', a_sourceFile = ''run.fit'', a_sport = ''running'',
         a_startTime = ''2023-11-14T22:13:20+00:00'',
         a_startTimeUtc = Some ''2023-11-14T22:13:20Z'', a_date = ''2023-11-14'',
         a_distanceM = None, a_durationS = None, a_paceSecPerKm = None,
         a_avgHr = None, a_lat = Some 20, a_lon = Some 30, a_city = Some ''unknown'',
         a_country = None, a_admin1 = None\<rparr>)), Map.empty)"
    by (simp add: parse_eval)
  have s2: "session_of (sample_run []
         [[(''position_lat'', Some (VFloat 15))],
          [(''position_lat'', Some (VFloat 20)), (''position_long'', Some (VFloat 30))],
          [(''position_lat'', Some (VFloat 21)), (''position_long'', Some (VFloat 31))]]) = Some (get_field_map
        ([(''sport'', Some (VStr ''running'' None)), (''start_time'', Some sample_start)] @ []))"
    by (simp add: session_of_def sample_run_def)
  show ?thesis
    using start_coordinates_per_axis[OF e1 s1] start_coordinates_per_axis[OF e2 s2] e1 e2
    by simp
qed

text \<open>The claim as it stands fails on a session that has a start latitude of 10 degrees
  and no start longitude, with one record at (20, 30): the activity starts at (10, 30),
  which is neither a session position nor the position of the record.\<close>

theorem start_coordinates_mixed_counterexample:
  "parse_fit_file exact_arith sample_fmt
      (sample_run [(''start_position_lat'', Some (VFloat 10))]
         [[(''position_lat'', Some (VFloat 20)), (''position_long'', Some (VFloat 30))]])
      None Map.empty (Some 100)
    = ((Inr (Some
        \<lparr>a_id = ''run_1700000000'', a_sourceFile = ''run.fit'', a_sport = ''running'',
         a_startTime = ''2023-11-14T22:13:20+00:00'',
         a_startTimeUtc = Some ''2023-11-14T22:13:20Z'', a_date = ''2023-11-14'',
         a_distanceM = None, a_durationS = None, a_paceSecPerKm = None,
         a_avgHr = None, a_lat = Some 10, a_lon = Some 30, a_city = Some ''unknown'',
         a_country = None, a_admin1 = None\<rparr>)), Map.empty)
   \<and> spec_first_record_position (records_of
      (sample_run [(''start_position_lat'', Some (VFloat 10))]
         [[(''position_lat'', Some (VFloat 20)), (''position_long'', Some (VFloat 30))]])) = Some (20, 30)"
  by (simp add: parse_eval spec_first_record_position_def record_position_def List.map_filter_simps)


subsection \<open>City label\<close>

lemma resolve_city_name:
  assumes "resolve_city err cities lat lon city_cache max_city_km = Inr ((n, co, ad), cache')"
  shows "n \<noteq> []"
    and "\<forall>cs c km c2. cities = Some cs
           \<and> city_lookup err lat lon cs city_cache max_city_km = Inr ((Some c, km), c2) \<longrightarrow>
         n = str_or (c_city c) ''unknown''"
    and "cities = None
           \<or> (\<exists>cs km c2. cities = Some cs
                \<and> city_lookup err lat lon cs city_cache max_city_km = Inr ((None, km), c2)) \<longrightarrow>
         n = ''unknown''"
  using assms
  by (auto simp: resolve_city_def str_or_def split: option.splits sum.splits prod.splits if_splits)

text \<open>
  Claim C10. Every activity that extraction returns has a non-empty text as its city: the
  name of the city record that the lookup at the start coordinates yields, or
  \<^verbatim>\<open>unknown\<close> when the lookup is switched off or yields no city, and also when the
  record that it yields has no name or an empty one. An activity whose city is
  \<^verbatim>\<open>unknown\<close> adds nothing to the city statistics.
\<close>

theorem city_label_non_empty:
  assumes "parse_fit_file err fmt path cities city_cache max_city_km = (Inr (Some a), cache')"
  shows "(\<exists>n. a_city a = Some n \<and> n \<noteq> [])
       \<and> (\<forall>cs c km c2. cities = Some cs
              \<and> city_lookup err (a_lat a) (a_lon a) cs city_cache max_city_km
                  = Inr ((Some c, km), c2) \<longrightarrow>
            a_city a = Some (case c_city c of
                               None \<Rightarrow> ''unknown''
                             | Some n \<Rightarrow> if n = [] then ''unknown'' else n))
       \<and> (cities = None
            \<or> (\<exists>cs km c2. cities = Some cs
                 \<and> city_lookup err (a_lat a) (a_lon a) cs city_cache max_city_km
                     = Inr ((None, km), c2)) \<longrightarrow>
            a_city a = Some ''unknown'')
       \<and> (a_city a = Some ''unknown'' \<longrightarrow> city_step stats a = stats \<and> build_city_stats [a] = [])"
proof -
  from parse_fit_file_Some[OF assms] obtain session start_time s where
    "summarize err fmt path session start_time s cities city_cache max_city_km = Inr (a, cache')"
    by blast
  from summarize_city[OF this] obtain n co ad where
    r: "resolve_city err cities (a_lat a) (a_lon a) city_cache max_city_km = Inr ((n, co, ad), cache')"
    and c: "a_city a = Some n"
    by blast
  have 1: "\<exists>n. a_city a = Some n \<and> n \<noteq> []"
    using c resolve_city_name(1)[OF r] by simp
  have s: "\<And>c. str_or (c_city c) ''unknown''
      = (case c_city c of None \<Rightarrow> ''unknown'' | Some n \<Rightarrow> if n = [] then ''unknown'' else n)"
    by (simp add: str_or_def split: option.splits)
  have 2: "\<forall>cs c km c2. cities = Some cs
              \<and> city_lookup err (a_lat a) (a_lon a) cs city_cache max_city_km
                  = Inr ((Some c, km), c2) \<longrightarrow>
            a_city a = Some (case c_city c of
                               None \<Rightarrow> ''unknown''
                             | Some n \<Rightarrow> if n = [] then ''unknown'' else n)"
    using c resolve_city_name(2)[OF r] by (simp add: s)
  have 3: "cities = None
            \<or> (\<exists>cs km c2. cities = Some cs
                 \<and> city_lookup err (a_lat a) (a_lon a) cs city_cache max_city_km
                     = Inr ((None, km), c2)) \<longrightarrow>
            a_city a = Some ''unknown''"
    using c resolve_city_name(3)[OF r] by simp
  have 4: "a_city a = Some ''unknown'' \<longrightarrow> city_step stats a = stats \<and> build_city_stats [a] = []"
    by (simp add: city_step_def build_city_stats_def sort_key_desc_def str_or_def)
  show ?thesis using 1 2 3 4 by blast
qed

theorem city_label_non_empty_witness:
  "fst (parse_fit_file exact_arith sample_fmt
      (sample_run [(''start_position_lat'', Some (VFloat 10)),
                   (''start_position_long'', Some (VFloat 30))] [])
      (Some [\<lparr>c_city = Some [], c_country = Some ''XX'', c_admin1 = None,
              c_lat = 10, c_lon = 30\<rparr>])
      Map.empty (Some 100))
    = Inr (Some
        \<lparr>a_id = ''run_1700000000'', a_sourceFile = ''run.fit'', a_sport = ''running'',
         a_startTime = ''2023-11-14T22:13:20+00:00'',
         a_startTimeUtc = Some ''2023-11-14T22:13:20Z'', a_date = ''2023-11-14'',
         a_distanceM = None, a_durationS = None, a_paceSecPerKm = None,
         a_avgHr = None, a_lat = Some 10, a_lon = Some 30, a_city = Some ''unknown'',
         a_country = Some ''XX'', a_admin1 = None\<rparr>)
   \<and> city_lookup exact_arith (Some 10) (Some 30)
        [\<lparr>c_city = Some [], c_country = Some ''XX'', c_admin1 = None, c_lat = 10, c_lon = 30\<rparr>]
        Map.empty (Some 100)
    = Inr ((Some \<lparr>c_city = Some [], c_country = Some ''XX'', c_admin1 = None,
              c_lat = 10, c_lon = 30\<rparr>, Some 0),
       [(round3 10, round3 30) \<mapsto>
         (Some \<lparr>c_city = Some [], c_country = Some ''XX'', c_admin1 = None, c_lat = 10, c_lon = 30\<rparr>,
          Some 0)])"
proof -
  have l: "city_lookup exact_arith (Some 10) (Some 30)
        [\<lparr>c_city = Some [], c_country = Some ''XX'', c_admin1 = None, c_lat = 10, c_lon = 30\<rparr>]
        Map.empty (Some 100)
    = Inr ((Some \<lparr>c_city = Some [], c_country = Some ''XX'', c_admin1 = None,
              c_lat = 10, c_lon = 30\<rparr>, Some 0),
       [(round3 10, round3 30) \<mapsto>
         (Some \<lparr>c_city = Some [], c_country = Some ''XX'', c_admin1 = None, c_lat = 10, c_lon = 30\<rparr>,
          Some 0)])"
    by (simp add: city_lookup_def find_nearest_city_def haversine_km_same Let_def)
  have e: "parse_fit_file exact_arith sample_fmt
      (sample_run [(''start_position_lat'', Some (VFloat 10)),
                   (''start_position_long'', Some (VFloat 30))] [])
      (Some [\<lparr>c_city = Some [], c_country = Some ''XX'', c_admin1 = None,
              c_lat = 10, c_lon = 30\<rparr>])
      Map.empty (Some 100)
    = (Inr (Some
        \<lparr>a_id = ''run_1700000000'', a_sourceFile = ''run.fit'', a_sport = ''running'',
         a_startTime = ''2023-11-14T22:13:20+00:00'',
         a_startTimeUtc = Some ''2023-11-14T22:13:20Z'', a_date = ''2023-11-14'',
         a_distanceM = None, a_durationS = None, a_paceSecPerKm = None,
         a_avgHr = None, a_lat = Some 10, a_lon = Some 30, a_city = Some ''unknown'',
         a_country = Some ''XX'', a_admin1 = None\<rparr>),
       [(round3 10, round3 30) \<mapsto>
         (Some \<lparr>c_city = Some [], c_country = Some ''XX'', c_admin1 = None, c_lat = 10, c_lon = 30\<rparr>,
          Some 0)])"
    by (simp add: parse_eval l)
  show ?thesis using city_label_non_empty[OF e] e l by simp
qed

section \<open>Properties of the aggregation\<close>

lemma or_zero_eq: "or_zero x = (case x of None \<Rightarrow> 0 | Some d \<Rightarrow> d)"
  by (simp add: or_zero_def split: option.splits)

lemma daily_fold_inv:
  "distinct (map fst (foldl daily_step [] activities))
   \<and> dom (map_of (foldl daily_step [] activities)) = a_date ` set activities
   \<and> (\<forall>k e. map_of (foldl daily_step [] activities) k = Some e \<longrightarrow>
         d_date e = k
       \<and> d_distanceM e = sum_list (map (or_zero \<circ> a_distanceM) (day_of k activities))
       \<and> d_durationS e = sum_list (map (or_zero \<circ> a_durationS) (day_of k activities))
       \<and> d_activities e = map digest_of (day_of k activities))"
proof (induction activities rule: rev_induct)
  case Nil
  show ?case by simp
next
  case (snoc x xs)
  let ?D = "foldl daily_step [] xs"
  let ?k = "a_date x"
  let ?entry = "case map_of ?D ?k of
                     None \<Rightarrow> \<lparr>d_date = ?k, d_distanceM = 0, d_durationS = 0, d_activities = []\<rparr>
                   | Some e \<Rightarrow> e"
  let ?new = "?entry\<lparr>d_distanceM := d_distanceM ?entry + or_zero (a_distanceM x),
                  d_durationS := d_durationS ?entry + or_zero (a_durationS x),
                  d_activities := d_activities ?entry @ [digest_of x]\<rparr>"
  have step: "foldl daily_step [] (xs @ [x]) = AList.update ?k ?new ?D"
    by (simp add: daily_step_def Let_def)
  from snoc.IH have d: "distinct (map fst ?D)"
    and dm: "dom (map_of ?D) = a_date ` set xs"
    and inv: "\<And>k e. map_of ?D k = Some e \<Longrightarrow>
         d_date e = k
       \<and> d_distanceM e = sum_list (map (or_zero \<circ> a_distanceM) (day_of k xs))
       \<and> d_durationS e = sum_list (map (or_zero \<circ> a_durationS) (day_of k xs))
       \<and> d_activities e = map digest_of (day_of k xs)"
    by blast+
  have entry: "d_date ?entry = ?k
       \<and> d_distanceM ?entry = sum_list (map (or_zero \<circ> a_distanceM) (day_of ?k xs))
       \<and> d_durationS ?entry = sum_list (map (or_zero \<circ> a_durationS) (day_of ?k xs))
       \<and> d_activities ?entry = map digest_of (day_of ?k xs)"
  proof (cases "map_of ?D ?k")
    case None
    then have "?k \<notin> a_date ` set xs" using dm by (metis domIff)
    then have "day_of ?k xs = []" unfolding day_of_def filter_empty_conv by (metis imageI)
    with None show ?thesis by simp
  next
    case (Some e)
    with inv[OF Some] show ?thesis by simp
  qed
  have 1: "distinct (map fst (foldl daily_step [] (xs @ [x])))"
    unfolding step using d by (simp add: distinct_update)
  have 2: "dom (map_of (foldl daily_step [] (xs @ [x]))) = a_date ` set (xs @ [x])"
    unfolding step using dm by (simp add: update_conv')
  have 3: "\<forall>k e. map_of (foldl daily_step [] (xs @ [x])) k = Some e \<longrightarrow>
         d_date e = k
       \<and> d_distanceM e = sum_list (map (or_zero \<circ> a_distanceM) (day_of k (xs @ [x])))
       \<and> d_durationS e = sum_list (map (or_zero \<circ> a_durationS) (day_of k (xs @ [x])))
       \<and> d_activities e = map digest_of (day_of k (xs @ [x]))"
  proof (intro allI impI)
    fix k e
    assume a: "map_of (foldl daily_step [] (xs @ [x])) k = Some e"
    show "d_date e = k
       \<and> d_distanceM e = sum_list (map (or_zero \<circ> a_distanceM) (day_of k (xs @ [x])))
       \<and> d_durationS e = sum_list (map (or_zero \<circ> a_durationS) (day_of k (xs @ [x])))
       \<and> d_activities e = map digest_of (day_of k (xs @ [x]))"
    proof (cases "k = ?k")
      case True
      with a have "e = ?new" unfolding step by (simp add: update_conv')
      with entry True show ?thesis by (simp add: day_of_def)
    next
      case False
      with a have "map_of ?D k = Some e" unfolding step by (simp add: update_conv')
      from inv[OF this] False show ?thesis by (simp add: day_of_def)
    qed
  qed
  from 1 2 3 show ?case by blast
qed

lemma daily_fold_entries:
  assumes "e \<in> snd ` set (foldl daily_step [] activities)"
  shows "d_distanceM e = sum_list (map (or_zero \<circ> a_distanceM) (day_of (d_date e) activities))
       \<and> d_activities e = map digest_of (day_of (d_date e) activities)
       \<and> d_date e \<in> a_date ` set activities"
proof -
  let ?D = "foldl daily_step [] activities"
  from assms obtain k where k: "(k, e) \<in> set ?D" by auto
  have "distinct (map fst ?D)" using daily_fold_inv by blast
  then have m: "map_of ?D k = Some e" using k by simp
  then have "k \<in> dom (map_of ?D)" by blast
  then have "k \<in> a_date ` set activities" using daily_fold_inv[of activities] by simp
  then show ?thesis using m daily_fold_inv[of activities] by simp
qed

lemma daily_fold_dates:
  "map d_date (map snd (foldl daily_step [] activities)) = map fst (foldl daily_step [] activities)"
proof -
  let ?D = "foldl daily_step [] activities"
  have d: "distinct (map fst ?D)" using daily_fold_inv by blast
  have "\<forall>p\<in>set ?D. d_date (snd p) = fst p"
  proof
    fix p assume "p \<in> set ?D"
    then have "map_of ?D (fst p) = Some (snd p)" using d by simp
    then show "d_date (snd p) = fst p" using daily_fold_inv[of activities] by simp
  qed
  then show ?thesis by simp
qed

lemma distinct_map_sort_key:
  "distinct (map f xs) \<Longrightarrow> distinct (map f (sort_key f xs))"
  by (simp add: distinct_map)

lemma build_daily_dates:
  "map d_date (build_daily activities)
     = map d_date (sort_key d_date (map snd (foldl daily_step [] activities)))"
  by (simp add: build_daily_def Let_def comp_def)

lemma build_daily_strict:
  "sorted_wrt (<) (map d_date (build_daily activities))"
proof -
  let ?L = "map snd (foldl daily_step [] activities)"
  have "distinct (map d_date ?L)"
    using daily_fold_inv[of activities] by (simp only: daily_fold_dates)
  then have "distinct (map d_date (sort_key d_date ?L))"
    by (rule distinct_map_sort_key)
  moreover have "sorted (map d_date (sort_key d_date ?L))"
    by (rule sorted_sort_key)
  ultimately show ?thesis
    by (simp only: build_daily_dates strict_sorted_iff)
qed

lemma build_daily_date_set:
  "set (map d_date (build_daily activities)) = a_date ` set activities"
proof -
  let ?D = "foldl daily_step [] activities"
  have "set (map d_date (build_daily activities)) = d_date ` set (sort_key d_date (map snd ?D))"
    by (simp only: build_daily_dates set_map)
  also have "\<dots> = d_date ` set (map snd ?D)" by (simp only: set_sort)
  also have "\<dots> = set (map d_date (map snd ?D))" by (simp only: set_map)
  also have "\<dots> = set (map fst ?D)" by (simp only: daily_fold_dates)
  also have "\<dots> = fst ` set ?D" by (simp only: set_map)
  also have "\<dots> = dom (map_of ?D)" by (simp add: dom_map_of_conv_image_fst)
  also have "\<dots> = a_date ` set activities" using daily_fold_inv[of activities] by blast
  finally show ?thesis .
qed

lemma build_daily_entry:
  assumes "e \<in> set (build_daily activities)"
  shows "d_distanceM e = sum_list (map (or_zero \<circ> a_distanceM) (day_of (d_date e) activities))
       \<and> d_activities e = sort_key digest_key (map digest_of (day_of (d_date e) activities))"
proof -
  from assms obtain e0 where
    e0: "e0 \<in> snd ` set (foldl daily_step [] activities)" and
    e: "e = e0\<lparr>d_activities := sort_key digest_key (d_activities e0)\<rparr>"
    by (auto simp: build_daily_def Let_def)
  from daily_fold_entries[OF e0] e show ?thesis by simp
qed

text \<open>
  Claim C8. For every activity list, the dates of the entries of \<^verbatim>\<open>build_daily\<close> are
  strictly increasing, so none occurs twice, and they are the dates of the activities;
  the distance of each entry is the sum of the distances of the activities of its date, an
  absent distance counting as zero; the activities of each entry are the digests of the
  activities of its date, sorted in ascending order of the key, which is the UTC start
  time, or the local start time when the UTC start time is absent or empty.
\<close>

theorem build_daily_sorted_sums:
  "sorted_wrt (<) (map d_date (build_daily activities))
   \<and> set (map d_date (build_daily activities)) = a_date ` set activities
   \<and> (\<forall>e\<in>set (build_daily activities).
        d_distanceM e =
          sum_list (map (\<lambda>a. case a_distanceM a of None \<Rightarrow> 0 | Some d \<Rightarrow> d)
            (filter (\<lambda>a. a_date a = d_date e) activities))
      \<and> d_activities e =
          sort_key digest_key (map digest_of (filter (\<lambda>a. a_date a = d_date e) activities))
      \<and> sorted (map digest_key (d_activities e)))
   \<and> (\<forall>item. digest_key item =
        (case g_startTimeUtc item of
           None \<Rightarrow> g_startTime item
         | Some utc \<Rightarrow> if utc = [] then g_startTime item else utc))"
proof (intro conjI ballI allI)
  show "sorted_wrt (<) (map d_date (build_daily activities))"
    by (rule build_daily_strict)
  show "set (map d_date (build_daily activities)) = a_date ` set activities"
    by (rule build_daily_date_set)
next
  fix e assume e: "e \<in> set (build_daily activities)"
  have f: "(or_zero \<circ> a_distanceM) = (\<lambda>a. case a_distanceM a of None \<Rightarrow> 0 | Some d \<Rightarrow> d)"
    by (rule ext) (simp add: or_zero_eq)
  show "d_distanceM e =
          sum_list (map (\<lambda>a. case a_distanceM a of None \<Rightarrow> 0 | Some d \<Rightarrow> d)
            (filter (\<lambda>a. a_date a = d_date e) activities))"
    using build_daily_entry[OF e] by (simp only: f day_of_def)
  show a: "d_activities e =
          sort_key digest_key (map digest_of (filter (\<lambda>a. a_date a = d_date e) activities))"
    using build_daily_entry[OF e] by (simp only: day_of_def)
  show "sorted (map digest_key (d_activities e))"
    by (simp only: a sorted_sort_key)
next
  fix item
  show "digest_key item =
        (case g_startTimeUtc item of
           None \<Rightarrow> g_startTime item
         | Some utc \<Rightarrow> if utc = [] then g_startTime item else utc)"
    by (simp add: digest_key_def str_or_def split: option.splits)
qed

theorem build_daily_sorted_sums_witness:
  "build_daily
     [sample_activity ''c'' ''2024-01-02T18:00:00+00:00'' (Some ''2024-01-02T18:00:00Z'')
        ''2024-01-02'' (Some 3000) None,
      sample_activity ''a'' ''2024-01-01T07:00:00+00:00'' (Some ''2024-01-01T07:00:00Z'')
        ''2024-01-01'' (Some 5000) None,
      sample_activity ''b'' ''2024-01-02T06:00:00+00:00'' None
        ''2024-01-02'' (Some 1500) None]
   = [\<lparr>d_date = ''2024-01-01'', d_distanceM = 5000, d_durationS = 0,
       d_activities =
         [digest_of (sample_activity ''a'' ''2024-01-01T07:00:00+00:00''
            (Some ''2024-01-01T07:00:00Z'') ''2024-01-01'' (Some 5000) None)]\<rparr>,
      \<lparr>d_date = ''2024-01-02'', d_distanceM = 4500, d_durationS = 0,
       d_activities =
         [digest_of (sample_activity ''b'' ''2024-01-02T06:00:00+00:00'' None
            ''2024-01-02'' (Some 1500) None),
          digest_of (sample_activity ''c'' ''2024-01-02T18:00:00+00:00''
            (Some ''2024-01-02T18:00:00Z'') ''2024-01-02'' (Some 3000) None)]\<rparr>]"
proof -
  have e: "build_daily
     [sample_activity ''c'' ''2024-01-02T18:00:00+00:00'' (Some ''2024-01-02T18:00:00Z'')
        ''2024-01-02'' (Some 3000) None,
      sample_activity ''a'' ''2024-01-01T07:00:00+00:00'' (Some ''2024-01-01T07:00:00Z'')
        ''2024-01-01'' (Some 5000) None,
      sample_activity ''b'' ''2024-01-02T06:00:00+00:00'' None
        ''2024-01-02'' (Some 1500) None]
   = [\<lparr>d_date = ''2024-01-01'', d_distanceM = 5000, d_durationS = 0,
       d_activities =
         [digest_of (sample_activity ''a'' ''2024-01-01T07:00:00+00:00''
            (Some ''2024-01-01T07:00:00Z'') ''2024-01-01'' (Some 5000) None)]\<rparr>,
      \<lparr>d_date = ''2024-01-02'', d_distanceM = 4500, d_durationS = 0,
       d_activities =
         [digest_of (sample_activity ''b'' ''2024-01-02T06:00:00+00:00'' None
            ''2024-01-02'' (Some 1500) None),
          digest_of (sample_activity ''c'' ''2024-01-02T18:00:00+00:00''
            (Some ''2024-01-02T18:00:00Z'') ''2024-01-02'' (Some 3000) None)]\<rparr>]"
    by (simp add: build_daily_def daily_step_def sample_activity_def digest_of_def
        digest_key_def str_or_def or_zero_def Let_def)
  show ?thesis
    using build_daily_sorted_sums[of
     "[sample_activity ''c'' ''2024-01-02T18:00:00+00:00'' (Some ''2024-01-02T18:00:00Z'')
        ''2024-01-02'' (Some 3000) None,
      sample_activity ''a'' ''2024-01-01T07:00:00+00:00'' (Some ''2024-01-01T07:00:00Z'')
        ''2024-01-01'' (Some 5000) None,
      sample_activity ''b'' ''2024-01-02T06:00:00+00:00'' None
        ''2024-01-02'' (Some 1500) None]"] e
    by simp
qed

lemma sum_list_update:
  fixes f :: "'v \<Rightarrow> nat"
  shows "sum_list (map (f \<circ> snd) (AList.update k v al))
           + (case map_of al k of None \<Rightarrow> 0 | Some e \<Rightarrow> f e)
         = sum_list (map (f \<circ> snd) al) + f v"
  by (induction al) auto

lemma set_update_cases:
  "p \<in> set (AList.update k v al) \<Longrightarrow> p = (k, v) \<or> p \<in> set al"
  by (induction al) (auto split: if_splits)

lemma city_step_skipped: "\<not> counted a \<Longrightarrow> city_step stats a = stats"
  by (simp add: city_step_def counted_def)

lemma entry_add_runs: "s_runs (entry_add e a) = s_runs e + 1"
  by (simp add: entry_add_def Let_def split: option.splits)

lemma entry_add_city: "s_city (entry_add e a) = s_city e"
  by (simp add: entry_add_def Let_def split: option.splits)

lemma city_step_counted:
  assumes "counted a"
  shows "\<exists>e'.
          city_step stats a
            = AList.update (str_or (a_city a) ''unknown'', a_country a, a_admin1 a) e' stats
        \<and> s_runs e' =
            (case map_of stats (str_or (a_city a) ''unknown'', a_country a, a_admin1 a) of
               None \<Rightarrow> 0 | Some e \<Rightarrow> s_runs e) + 1
        \<and> s_city e' =
            (case map_of stats (str_or (a_city a) ''unknown'', a_country a, a_admin1 a) of
               None \<Rightarrow> str_or (a_city a) ''unknown'' | Some e \<Rightarrow> s_city e)"
proof -
  let ?key = "(str_or (a_city a) ''unknown'', a_country a, a_admin1 a)"
  let ?entry = "case map_of stats ?key of
                  None \<Rightarrow>
                    \<lparr>s_city = fst ?key, s_country = fst (snd ?key),
                     s_admin1 = snd (snd ?key), s_runs = 0, s_distanceM = 0,
                     s_durationS = 0\<rparr>
                | Some e \<Rightarrow> e"
  have "city_step stats a = AList.update ?key (entry_add ?entry a) stats"
    using assms by (simp add: city_step_def counted_def Let_def)
  moreover have "s_runs (entry_add ?entry a)
      = (case map_of stats ?key of None \<Rightarrow> 0 | Some e \<Rightarrow> s_runs e) + 1"
    by (simp add: entry_add_runs split: option.splits)
  moreover have "s_city (entry_add ?entry a)
      = (case map_of stats ?key of None \<Rightarrow> str_or (a_city a) ''unknown'' | Some e \<Rightarrow> s_city e)"
    by (simp add: entry_add_city split: option.splits)
  ultimately show ?thesis by blast
qed

lemma city_fold_inv:
  "(\<forall>p\<in>set (foldl city_step [] activities). s_city (snd p) \<noteq> ''unknown'')
   \<and> sum_list (map (s_runs \<circ> snd) (foldl city_step [] activities))
       = length (filter counted activities)"
proof (induction activities rule: rev_induct)
  case Nil
  show ?case by simp
next
  case (snoc x xs)
  let ?S = "foldl city_step [] xs"
  let ?key = "(str_or (a_city x) ''unknown'', a_country x, a_admin1 x)"
  have step: "foldl city_step [] (xs @ [x]) = city_step ?S x" by simp
  show ?case
  proof (cases "counted x")
    case False
    then show ?thesis using snoc.IH by (simp add: city_step_skipped)
  next
    case True
    from city_step_counted[OF True, of ?S] obtain e' where
      u: "city_step ?S x = AList.update ?key e' ?S" and
      r: "s_runs e' = (case map_of ?S ?key of None \<Rightarrow> 0 | Some e \<Rightarrow> s_runs e) + 1" and
      c: "s_city e' = (case map_of ?S ?key of None \<Rightarrow> str_or (a_city x) ''unknown'' | Some e \<Rightarrow> s_city e)"
      by blast
    have ce: "s_city e' \<noteq> ''unknown''"
    proof (cases "map_of ?S ?key")
      case None
      with c True show ?thesis by (simp add: counted_def)
    next
      case (Some e)
      then have "(?key, e) \<in> set ?S" by (rule map_of_SomeD)
      with snoc.IH have "s_city e \<noteq> ''unknown''" by force
      with c Some show ?thesis by simp
    qed
    have 1: "\<forall>p\<in>set (foldl city_step [] (xs @ [x])). s_city (snd p) \<noteq> ''unknown''"
    proof
      fix p assume "p \<in> set (foldl city_step [] (xs @ [x]))"
      then have "p = (?key, e') \<or> p \<in> set ?S"
        unfolding step u by (rule set_update_cases)
      then show "s_city (snd p) \<noteq> ''unknown''" using ce snoc.IH by auto
    qed
    have "sum_list (map (s_runs \<circ> snd) (AList.update ?key e' ?S))
           + (case map_of ?S ?key of None \<Rightarrow> 0 | Some e \<Rightarrow> s_runs e)
         = sum_list (map (s_runs \<circ> snd) ?S) + s_runs e'"
      by (rule sum_list_update)
    then have "sum_list (map (s_runs \<circ> snd) (AList.update ?key e' ?S))
         = sum_list (map (s_runs \<circ> snd) ?S) + 1"
      using r by simp
    then have 2: "sum_list (map (s_runs \<circ> snd) (foldl city_step [] (xs @ [x])))
       = length (filter counted (xs @ [x]))"
      unfolding step u using snoc.IH True by simp
    from 1 2 show ?thesis by blast
  qed
qed

lemma sum_list_insort_key:
  fixes f :: "'a \<Rightarrow> nat"
  shows "sum_list (map f (insort_key g x xs)) = f x + sum_list (map f xs)"
  by (induction xs) auto

lemma sum_list_sort_key:
  fixes f :: "'a \<Rightarrow> nat"
  shows "sum_list (map f (sort_key g xs)) = sum_list (map f xs)"
  by (induction xs) (auto simp: sum_list_insort_key)

lemma sum_list_sort_key_desc:
  fixes f :: "'a \<Rightarrow> nat"
  shows "sum_list (map f (sort_key_desc g xs)) = sum_list (map f xs)"
proof -
  have "sum_list (map f (sort_key_desc g xs)) = sum_list (rev (map f (sort_key g (rev xs))))"
    by (simp only: sort_key_desc_def rev_map)
  also have "\<dots> = sum_list (map f (sort_key g (rev xs)))" by (simp only: sum_list_rev)
  also have "\<dots> = sum_list (map f (rev xs))" by (rule sum_list_sort_key)
  also have "\<dots> = sum_list (rev (map f xs))" by (simp only: rev_map)
  also have "\<dots> = sum_list (map f xs)" by (simp only: sum_list_rev)
  finally show ?thesis .
qed

text \<open>
  Claim C9. For every activity list, no entry of \<^verbatim>\<open>build_city_stats\<close> has the city
  \<^verbatim>\<open>unknown\<close>, and the runs of all entries add up to at most the number of activities:
  to the number of activities whose city is present, not empty and not \<^verbatim>\<open>unknown\<close>.
\<close>

theorem build_city_stats_known_cities:
  "(\<forall>r\<in>set (build_city_stats activities). r_city r \<noteq> ''unknown'')
   \<and> sum_list (map r_runs (build_city_stats activities)) \<le> length activities
   \<and> sum_list (map r_runs (build_city_stats activities))
       = length (filter (\<lambda>a. a_city a \<noteq> None \<and> a_city a \<noteq> Some [] \<and> a_city a \<noteq> Some ''unknown'')
           activities)"
proof -
  let ?S = "foldl city_step [] activities"
  have s: "set (build_city_stats activities) = (city_result \<circ> snd) ` set ?S"
    by (simp add: build_city_stats_def sort_key_desc_def Let_def)
  have 1: "\<forall>r\<in>set (build_city_stats activities). r_city r \<noteq> ''unknown''"
    unfolding s using city_fold_inv[of activities] by (auto simp: city_result_def)
  have "sum_list (map r_runs (build_city_stats activities))
      = sum_list (map r_runs (map (city_result \<circ> snd) ?S))"
    by (simp only: build_city_stats_def Let_def sum_list_sort_key_desc)
  also have "\<dots> = sum_list (map (s_runs \<circ> snd) ?S)"
    by (simp add: comp_def city_result_def)
  also have "\<dots> = length (filter counted activities)"
    using city_fold_inv[of activities] by blast
  finally have n: "sum_list (map r_runs (build_city_stats activities))
      = length (filter counted activities)" .
  have c: "counted = (\<lambda>a. a_city a \<noteq> None \<and> a_city a \<noteq> Some [] \<and> a_city a \<noteq> Some ''unknown'')"
    by (rule ext) (auto simp: counted_def str_or_def split: option.splits)
  have 2: "sum_list (map r_runs (build_city_stats activities)) \<le> length activities"
    unfolding n by (rule length_filter_le)
  show ?thesis using 1 2 n c by simp
qed

theorem build_city_stats_known_cities_witness:
  "build_city_stats
     [sample_activity ''a'' ''2024-01-01T07:00:00+00:00'' None ''2024-01-01'' (Some 5000)
        (Some ''Berlin''),
      sample_activity ''b'' ''2024-01-02T07:00:00+00:00'' None ''2024-01-02'' (Some 9000) None,
      sample_activity ''c'' ''2024-01-03T07:00:00+00:00'' None ''2024-01-03'' (Some 7000)
        (Some ''Paris''),
      sample_activity ''d'' ''2024-01-04T07:00:00+00:00'' None ''2024-01-04'' (Some 3000)
        (Some ''Berlin''),
      sample_activity ''e'' ''2024-01-05T07:00:00+00:00'' None ''2024-01-05'' (Some 4000)
        (Some ''unknown'')]
   = [\<lparr>r_city = ''Berlin'', r_country = None, r_admin1 = None, r_runs = 2,
       r_distanceM = 8000, r_avgPaceSecPerKm = None\<rparr>,
      \<lparr>r_city = ''Paris'', r_country = None, r_admin1 = None, r_runs = 1,
       r_distanceM = 7000, r_avgPaceSecPerKm = None\<rparr>]"
proof -
  have e: "build_city_stats
     [sample_activity ''a'' ''2024-01-01T07:00:00+00:00'' None ''2024-01-01'' (Some 5000)
        (Some ''Berlin''),
      sample_activity ''b'' ''2024-01-02T07:00:00+00:00'' None ''2024-01-02'' (Some 9000) None,
      sample_activity ''c'' ''2024-01-03T07:00:00+00:00'' None ''2024-01-03'' (Some 7000)
        (Some ''Paris''),
      sample_activity ''d'' ''2024-01-04T07:00:00+00:00'' None ''2024-01-04'' (Some 3000)
        (Some ''Berlin''),
      sample_activity ''e'' ''2024-01-05T07:00:00+00:00'' None ''2024-01-05'' (Some 4000)
        (Some ''unknown'')]
   = [\<lparr>r_city = ''Berlin'', r_country = None, r_admin1 = None, r_runs = 2,
       r_distanceM = 8000, r_avgPaceSecPerKm = None\<rparr>,
      \<lparr>r_city = ''Paris'', r_country = None, r_admin1 = None, r_runs = 1,
       r_distanceM = 7000, r_avgPaceSecPerKm = None\<rparr>]"
    by (simp add: build_city_stats_def city_step_def entry_add_def city_result_def
        sort_key_desc_def sample_activity_def str_or_def Let_def)
  show ?thesis
    using build_city_stats_known_cities[of
     "[sample_activity ''a'' ''2024-01-01T07:00:00+00:00'' None ''2024-01-01'' (Some 5000)
        (Some ''Berlin''),
      sample_activity ''b'' ''2024-01-02T07:00:00+00:00'' None ''2024-01-02'' (Some 9000) None,
      sample_activity ''c'' ''2024-01-03T07:00:00+00:00'' None ''2024-01-03'' (Some 7000)
        (Some ''Paris''),
      sample_activity ''d'' ''2024-01-04T07:00:00+00:00'' None ''2024-01-04'' (Some 3000)
        (Some ''Berlin''),
      sample_activity ''e'' ''2024-01-05T07:00:00+00:00'' None ''2024-01-05'' (Some 4000)
        (Some ''unknown'')]"] e
    by simp
qed

end
